theory Spec2Isabelle
  imports Complex_Main "HOL-Library.Word"
begin

section \<open>The number type \<open>T\<close> of the annealer\<close>

text \<open>
  \<open>Anneal<T>\<close> and \<open>AdaptiveAnneal<T>\<close> are templates over a floating point type.
  A value of \<open>T\<close> is modelled as a real number or one of the three special values of
  IEEE 754 arithmetic, because the code tests for them (\<open>has_nan_or_inf\<close>) and because
  every comparison with a NaN is false. Arithmetic on finite values is exact: rounding
  and underflow are not modelled, and there is one zero. Overflow is modelled by
  \<open>overflow\<close> below, where the code sets an objective against the value of largest
  magnitude that \<open>init\<close> stores: in the tangents of a reanneal.
\<close>

datatype fl = Fin real | PInf | NInf | NaN

datatype fptype = Float32 | Float64

text \<open>\<open>std::numeric_limits<T>::epsilon()\<close> and \<open>std::numeric_limits<T>::max()\<close>.\<close>

fun epsilon :: "fptype \<Rightarrow> real" where
  "epsilon Float32 = 1 / 2 ^ 23"
| "epsilon Float64 = 1 / 2 ^ 52"

fun fmax :: "fptype \<Rightarrow> real" where
  "fmax Float32 = (2 - 1 / 2 ^ 23) * 2 ^ 127"
| "fmax Float64 = (2 - 1 / 2 ^ 52) * 2 ^ 1023"

text \<open>
  The result of an operation of \<open>T\<close> whose exact value is \<open>a\<close>. Rounded to nearest, a
  value is replaced by an infinity as soon as its magnitude reaches the largest value of
  \<open>T\<close> plus half a unit in its last place.
\<close>

fun overflow_threshold :: "fptype \<Rightarrow> real" where
  "overflow_threshold Float32 = (2 - 1 / 2 ^ 24) * 2 ^ 127"
| "overflow_threshold Float64 = (2 - 1 / 2 ^ 53) * 2 ^ 1023"

fun overflow :: "fptype \<Rightarrow> fl \<Rightarrow> fl" where
  "overflow t (Fin a) =
     (if overflow_threshold t \<le> a then PInf
      else if a \<le> - overflow_threshold t then NInf else Fin a)"
| "overflow t a = a"

fun is_finite :: "fl \<Rightarrow> bool" where
  "is_finite (Fin a) = True"
| "is_finite _ = False"

fun fl_neg :: "fl \<Rightarrow> fl" where
  "fl_neg (Fin a) = Fin (- a)"
| "fl_neg PInf = NInf"
| "fl_neg NInf = PInf"
| "fl_neg NaN = NaN"

fun fl_add :: "fl \<Rightarrow> fl \<Rightarrow> fl" where
  "fl_add (Fin a) (Fin b) = Fin (a + b)"
| "fl_add NaN _ = NaN"
| "fl_add _ NaN = NaN"
| "fl_add PInf NInf = NaN"
| "fl_add NInf PInf = NaN"
| "fl_add PInf _ = PInf"
| "fl_add _ PInf = PInf"
| "fl_add NInf _ = NInf"
| "fl_add _ NInf = NInf"

definition fl_sub :: "fl \<Rightarrow> fl \<Rightarrow> fl" where
  "fl_sub a b = fl_add a (fl_neg b)"

text \<open>An infinity of the sign of a finite non-zero factor, NaN for the factor zero.\<close>

definition inf_times :: "bool \<Rightarrow> real \<Rightarrow> fl" where
  "inf_times pos a = (if a = 0 then NaN else if (0 < a) = pos then PInf else NInf)"

fun fl_mul :: "fl \<Rightarrow> fl \<Rightarrow> fl" where
  "fl_mul (Fin a) (Fin b) = Fin (a * b)"
| "fl_mul NaN _ = NaN"
| "fl_mul _ NaN = NaN"
| "fl_mul (Fin a) PInf = inf_times True a"
| "fl_mul (Fin a) NInf = inf_times False a"
| "fl_mul PInf (Fin b) = inf_times True b"
| "fl_mul NInf (Fin b) = inf_times False b"
| "fl_mul PInf PInf = PInf"
| "fl_mul NInf NInf = PInf"
| "fl_mul PInf NInf = NInf"
| "fl_mul NInf PInf = NInf"

fun fl_div :: "fl \<Rightarrow> fl \<Rightarrow> fl" where
  "fl_div (Fin a) (Fin b) = (if b = 0 then inf_times True a else Fin (a / b))"
| "fl_div NaN _ = NaN"
| "fl_div _ NaN = NaN"
| "fl_div (Fin a) _ = Fin 0"
| "fl_div PInf (Fin b) = (if 0 \<le> b then PInf else NInf)"
| "fl_div NInf (Fin b) = (if 0 \<le> b then NInf else PInf)"
| "fl_div _ _ = NaN"

text \<open>The comparison operators of C++: each is false as soon as an operand is NaN.\<close>

fun fl_lt :: "fl \<Rightarrow> fl \<Rightarrow> bool" where
  "fl_lt (Fin a) (Fin b) = (a < b)"
| "fl_lt NaN _ = False"
| "fl_lt _ NaN = False"
| "fl_lt _ NInf = False"
| "fl_lt PInf _ = False"
| "fl_lt _ _ = True"

fun fl_le :: "fl \<Rightarrow> fl \<Rightarrow> bool" where
  "fl_le (Fin a) (Fin b) = (a \<le> b)"
| "fl_le NaN _ = False"
| "fl_le _ NaN = False"
| "fl_le NInf _ = True"
| "fl_le _ PInf = True"
| "fl_le _ _ = False"

definition fl_gt :: "fl \<Rightarrow> fl \<Rightarrow> bool" where
  "fl_gt a b = fl_lt b a"

definition fl_ge :: "fl \<Rightarrow> fl \<Rightarrow> bool" where
  "fl_ge a b = fl_le b a"

definition fl_eq :: "fl \<Rightarrow> fl \<Rightarrow> bool" where
  "fl_eq a b = (a \<noteq> NaN \<and> a = b)"

text \<open>\<open>std::min (a, b)\<close> is \<open>(b < a) ? b : a\<close>, \<open>std::max (a, b)\<close> is \<open>(a < b) ? b : a\<close>.\<close>

definition fl_min :: "fl \<Rightarrow> fl \<Rightarrow> fl" where
  "fl_min a b = (if fl_lt b a then b else a)"

definition fl_max :: "fl \<Rightarrow> fl \<Rightarrow> fl" where
  "fl_max a b = (if fl_lt a b then b else a)"

fun fl_abs :: "fl \<Rightarrow> fl" where
  "fl_abs (Fin a) = Fin \<bar>a\<bar>"
| "fl_abs NaN = NaN"
| "fl_abs _ = PInf"

fun fl_exp :: "fl \<Rightarrow> fl" where
  "fl_exp (Fin a) = Fin (exp a)"
| "fl_exp PInf = PInf"
| "fl_exp NInf = Fin 0"
| "fl_exp NaN = NaN"

fun fl_log :: "fl \<Rightarrow> fl" where
  "fl_log (Fin a) = (if a < 0 then NaN else if a = 0 then NInf else Fin (ln a))"
| "fl_log PInf = PInf"
| "fl_log _ = NaN"

text \<open>
  \<open>std::pow\<close>: a power of a negative base exists for an integral exponent only.
\<close>

definition odd_integral :: "real \<Rightarrow> bool" where
  "odd_integral b = (b \<in> \<int> \<and> odd \<lfloor>b\<rfloor>)"

fun fl_pow :: "fl \<Rightarrow> fl \<Rightarrow> fl" where
  "fl_pow (Fin a) (Fin b) =
     (if b = 0 \<or> a = 1 then Fin 1
      else if 0 < a then Fin (a powr b)
      else if a = 0 then (if 0 < b then Fin 0 else PInf)
      else if b \<notin> \<int> then NaN
      else if odd \<lfloor>b\<rfloor> then Fin (- (\<bar>a\<bar> powr b)) else Fin (\<bar>a\<bar> powr b))"
| "fl_pow NaN (Fin b) = (if b = 0 then Fin 1 else NaN)"
| "fl_pow (Fin a) NaN = (if a = 1 then Fin 1 else NaN)"
| "fl_pow (Fin a) PInf = (if \<bar>a\<bar> < 1 then Fin 0 else if \<bar>a\<bar> = 1 then Fin 1 else PInf)"
| "fl_pow (Fin a) NInf = (if \<bar>a\<bar> < 1 then PInf else if \<bar>a\<bar> = 1 then Fin 1 else Fin 0)"
| "fl_pow PInf (Fin b) = (if b = 0 then Fin 1 else if 0 < b then PInf else Fin 0)"
| "fl_pow NInf (Fin b) =
     (if b = 0 then Fin 1 else if b < 0 then Fin 0
      else if odd_integral b then NInf else PInf)"
| "fl_pow PInf PInf = PInf"
| "fl_pow NInf PInf = PInf"
| "fl_pow PInf NInf = Fin 0"
| "fl_pow NInf NInf = Fin 0"
| "fl_pow _ _ = NaN"

text \<open>
  Conversions between \<open>unsigned int\<close> and \<open>T\<close>. \<open>static_cast<unsigned int>\<close> truncates
  towards zero; it is undefined when the truncated value is not representable, which is
  \<open>None\<close> here.
\<close>

definition of_uint :: "32 word \<Rightarrow> fl" where
  "of_uint w = Fin (real (unat w))"

fun to_uint :: "fl \<Rightarrow> 32 word option" where
  "to_uint (Fin a) =
     (if - 1 < a \<and> a < 2 ^ 32 then Some (word_of_nat (nat \<lfloor>a\<rfloor>)) else None)"
| "to_uint _ = None"

section \<open>The vector type\<close>

text \<open>
  Modelled from the spec: \<open>morph::vVector<T>\<close> (header morph/vVector.h) is used by the
  annealer and is not among the sources. A vector is a list; arithmetic between two
  vectors and between a vector and a scalar is element by element; a comparison holds
  when it holds for every coordinate (the spec: a point is kept ``only if every coordinate
  lies within'' its bounds).
\<close>

definition vresize :: "nat \<Rightarrow> 'a \<Rightarrow> 'a list \<Rightarrow> 'a list" where
  "vresize len v xs = take len xs @ replicate (len - length xs) v"

definition vv_le :: "fl list \<Rightarrow> fl list \<Rightarrow> bool" where
  "vv_le xs ys = list_all2 fl_le xs ys"

definition vv_ge :: "fl list \<Rightarrow> fl list \<Rightarrow> bool" where
  "vv_ge xs ys = list_all2 fl_ge xs ys"

definition vv_lt :: "fl list \<Rightarrow> fl list \<Rightarrow> bool" where
  "vv_lt xs ys = list_all2 fl_lt xs ys"

definition vs_gt :: "fl list \<Rightarrow> fl \<Rightarrow> bool" where
  "vs_gt xs b = list_all (\<lambda>a. fl_gt a b) xs"

definition has_nan_or_inf :: "fl list \<Rightarrow> bool" where
  "has_nan_or_inf xs = list_ex (\<lambda>a. \<not> is_finite a) xs"

definition has_zero :: "fl list \<Rightarrow> bool" where
  "has_zero xs = list_ex (\<lambda>a. fl_eq a (Fin 0)) xs"

definition signum :: "fl \<Rightarrow> fl" where
  "signum a = (if fl_gt a (Fin 0) then Fin 1 else if fl_eq a (Fin 0) then Fin 0 else Fin (- 1))"

definition vsum :: "fl list \<Rightarrow> fl" where
  "vsum xs = foldl fl_add (Fin 0) xs"

definition mean :: "fl list \<Rightarrow> fl" where
  "mean xs = fl_div (vsum xs) (Fin (real (length xs)))"

text \<open>The largest element, found with \<open><\<close> as \<open>std::max_element\<close> does; 0 for no element.\<close>

definition vmax :: "fl list \<Rightarrow> fl" where
  "vmax xs = (case xs of [] \<Rightarrow> Fin 0 | a # as \<Rightarrow> foldl fl_max a as)"

definition max_elementwise :: "fl \<Rightarrow> fl list \<Rightarrow> fl list" where
  "max_elementwise v xs = map (\<lambda>a. fl_max a v) xs"

definition min_elementwise :: "fl \<Rightarrow> fl list \<Rightarrow> fl list" where
  "min_elementwise v xs = map (\<lambda>a. fl_min a v) xs"

section \<open>The annealer object\<close>

datatype Anneal_State =
  Unknown | NeedToInit | NeedToStep | NeedToCompute | NeedToComputeSet | ReadyToStop

datatype Anneal_StopCondition =
  Unknown_condition | T_k_less_than_T_f | T_k_less_than_epsilon
  | T_cost_less_than_epsilon | f_x_best_repeated

text \<open>
  The data members of \<open>Anneal<T>\<close>, in the order of the class. \<open>fp\<close> is the template
  argument. The members that only steer printing (\<open>display_temperatures\<close>,
  \<open>display_reanneal\<close>, \<open>param_names\<close>) are left out, and so is the generator \<open>rng_u\<close>:
  the numbers it delivers are an input of \<open>step\<close>. \<open>k_f\<close> is only ever printed; it is
  \<open>None\<close> when the conversion that computes it is undefined.
\<close>

record Anneal =
  fp :: fptype
  downhill :: bool
  temperature_ratio_scale :: fl
  temperature_anneal_scale :: fl
  cost_parameter_scale_ratio :: fl
  acc_gen_reanneal_ratio :: fl
  delta_param :: fl
  objective_repeat_precision :: fl
  f_x_best_repeat_max :: "32 word"
  enable_reanneal :: bool
  reanneal_after_steps :: "32 word"
  exit_at_T_f :: bool
  x_cand :: "fl list"
  f_x_cand :: fl
  x :: "fl list"
  f_x :: fl
  x_best :: "fl list"
  f_x_best :: fl
  f_x_best_repeats :: "32 word"
  x_plusdelta :: "fl list"
  f_x_plusdelta :: fl
  num_generated :: "32 word"
  num_generated_best :: "32 word"
  num_generated_recently :: "32 word"
  num_improved :: "32 word"
  num_worse :: "32 word"
  num_worse_accepted :: "32 word"
  num_accepted :: "32 word"
  num_accepted_best :: "32 word"
  num_accepted_recently :: "32 word"
  steps :: "32 word"
  param_hist_accepted :: "fl list list"
  f_param_hist_accepted :: "fl list"
  param_hist_rejected :: "fl list list"
  f_param_hist_rejected :: "fl list"
  state :: Anneal_State
  reason_for_exit :: Anneal_StopCondition
  D :: nat
  k :: "32 word"
  k_f :: "32 word option"
  k_r :: "32 word"
  T_k :: "fl list"
  T_0 :: "fl list"
  T_f :: "fl list"
  m :: "fl list"
  n :: "fl list"
  c :: "fl list"
  c_cost :: "fl list"
  T_cost_0 :: "fl list"
  T_cost :: "fl list"
  k_cost :: "32 word"
  range_min :: "fl list"
  range_max :: "fl list"
  rdelta :: "fl list"
  rmeans :: "fl list"
  tangents :: "fl list"

definition eps :: "Anneal \<Rightarrow> fl" where
  "eps s = Fin (epsilon (fp s))"

definition min_steps_to_reanneal :: "32 word" where
  "min_steps_to_reanneal = 10"

text \<open>
  What a call can end in instead of returning. The two \<open>std::runtime_error\<close>s of
  \<open>complete_reanneal\<close> (``NaN or inf in tangents'' and ``Can't update k based on new
  temp, as it is <=0''), a read or write outside a vector or a conversion whose result is
  not representable (undefined behaviour in C++), and, for the model only, the end of the
  random numbers handed to \<open>step\<close>. An exception leaves the object as it was when
  it was thrown, so a failed call of \<open>step\<close> returns the error with that object.
\<close>

datatype error =
  NaN_or_inf_in_tangents
  | Temp_not_positive
  | Undefined_behaviour
  | No_more_draws

subsection \<open>Construction and \<open>init\<close>\<close>

text \<open>
  The object the constructor builds from the initial parameters and the ranges, with the
  default member initialisers of the class. The loop over \<open>param_ranges\<close> writes
  \<open>range_min[i]\<close> and \<open>range_max[i]\<close> for each pair; the first \<open>D\<close> places exist.
\<close>

definition Anneal_new :: "fptype \<Rightarrow> fl list \<Rightarrow> (fl \<times> fl) list \<Rightarrow> Anneal" where
  "Anneal_new t initial_params param_ranges =
    (let d = length initial_params;
         rmin = take d (map fst param_ranges) @ replicate (d - length param_ranges) (Fin 0);
         rmax = take d (map snd param_ranges) @ replicate (d - length param_ranges) (Fin 0)
     in \<lparr> fp = t,
          downhill = True,
          temperature_ratio_scale = Fin (1 / 100000),
          temperature_anneal_scale = Fin 100,
          cost_parameter_scale_ratio = Fin 1,
          acc_gen_reanneal_ratio = Fin (1 / 1000000),
          delta_param = Fin (1 / 100),
          objective_repeat_precision = Fin (epsilon t),
          f_x_best_repeat_max = 10,
          enable_reanneal = True,
          reanneal_after_steps = 100,
          exit_at_T_f = False,
          x_cand = initial_params,
          f_x_cand = Fin 0,
          x = initial_params,
          f_x = Fin 0,
          x_best = initial_params,
          f_x_best = Fin 0,
          f_x_best_repeats = 0,
          x_plusdelta = [],
          f_x_plusdelta = Fin 0,
          num_generated = 0,
          num_generated_best = 0,
          num_generated_recently = 0,
          num_improved = 0,
          num_worse = 0,
          num_worse_accepted = 0,
          num_accepted = 0,
          num_accepted_best = 0,
          num_accepted_recently = 0,
          steps = 0,
          param_hist_accepted = [],
          f_param_hist_accepted = [],
          param_hist_rejected = [],
          f_param_hist_rejected = [],
          state = NeedToInit,
          reason_for_exit = Unknown_condition,
          D = d,
          k = 1,
          k_f = Some 0,
          k_r = 0,
          T_k = [],
          T_0 = [],
          T_f = [],
          m = [],
          n = [],
          c = [],
          c_cost = [],
          T_cost_0 = [],
          T_cost = [],
          k_cost = 0,
          range_min = rmin,
          range_max = rmax,
          rdelta = map2 fl_sub rmax rmin,
          rmeans = map (\<lambda>a. fl_div a (Fin 2)) (map2 fl_add rmax rmin),
          tangents = [] \<rparr>)"

text \<open>A range beyond the \<open>D\<close>-th is written past the end of \<open>range_min\<close>.\<close>

definition Anneal_ctor :: "fptype \<Rightarrow> fl list \<Rightarrow> (fl \<times> fl) list \<Rightarrow> error + Anneal" where
  "Anneal_ctor t initial_params param_ranges =
    (if length initial_params < length param_ranges
     then Inl Undefined_behaviour
     else Inr (Anneal_new t initial_params param_ranges))"

definition init :: "Anneal \<Rightarrow> Anneal" where
  "init s =
    (let best = (if downhill s then Fin (fmax (fp s)) else Fin (- fmax (fp s)));
         d = D s;
         T_0' = vresize d (Fin 1) (T_0 s);
         m' = replicate d (fl_neg (fl_log (temperature_ratio_scale s)));
         n' = replicate d (fl_log (temperature_anneal_scale s));
         c' = map2 fl_mul m' (map (\<lambda>a. fl_exp (fl_div (fl_neg a) (Fin (real d)))) n');
         c_cost' = map (\<lambda>a. fl_mul a (cost_parameter_scale_ratio s)) c'
     in s\<lparr> f_x_best := best,
           f_x := best,
           f_x_cand := best,
           x := vresize d (Fin 0) (x s),
           x_cand := vresize d (Fin 0) (x_cand s),
           x_best := vresize d (Fin 0) (x_best s),
           T_0 := T_0',
           T_k := vresize d (Fin 1) (T_k s),
           m := m',
           n := n',
           c := c',
           T_f := map2 fl_mul T_0' (map (\<lambda>a. fl_exp (fl_neg a)) m'),
           k_f := to_uint (mean (map fl_exp n')),
           tangents := vresize d (Fin 1) (tangents s),
           c_cost := c_cost',
           T_cost_0 := c_cost',
           T_cost := c_cost',
           state := NeedToCompute \<rparr>)"

subsection \<open>Candidate generation\<close>

text \<open>
  \<open>generate_delta_parameter\<close>: the loop over \<open>i < D\<close> reads \<open>x_new[i]\<close>,
  \<open>range_max[i]\<close> and \<open>range_min[i]\<close>; all three vectors have \<open>D\<close> elements in an
  object made by the constructor.
\<close>

definition generate_delta_parameter :: "Anneal \<Rightarrow> fl list \<Rightarrow> fl list" where
  "generate_delta_parameter s x_start =
    (let plusminus = replicate (D s) (Fin 1);
         x_new = map2 fl_mul x_start
                   (map (\<lambda>p. fl_add (Fin 1) (fl_mul p (delta_param s))) plusminus);
         plusminus' = map (\<lambda>i. if fl_gt (x_new ! i) (range_max s ! i)
                                    \<or> fl_lt (x_new ! i) (range_min s ! i)
                                 then Fin (- 1) else plusminus ! i) [0..<D s]
     in map2 fl_mul x_start
          (map (\<lambda>p. fl_add (Fin 1) (fl_mul p (delta_param s))) plusminus'))"

text \<open>
  \<open>generate_next\<close>. Modelled from the spec: \<open>vVector::randomize\<close> is not among the
  sources; it fills \<open>u\<close> with ``D independent uniform random numbers in [0,1)''. Each
  element of the list \<open>gs\<close> is what one call of \<open>u.randomize()\<close> delivers. The
  \<open>while\<close> loop takes one element per round; it has not ended when the list has.
\<close>

definition offset_point :: "Anneal \<Rightarrow> real list \<Rightarrow> fl list" where
  "offset_point s u =
    (let uf = map Fin u;
         u2 = map (\<lambda>a. fl_abs (fl_sub (fl_mul a (Fin 2)) (Fin 1))) uf;
         sigu = map (\<lambda>a. signum (fl_sub a (Fin (1 / 2)))) uf;
         y = map2 fl_mul (map2 fl_mul sigu (T_k s))
               (map (\<lambda>b. fl_sub b (Fin 1))
                  (map2 fl_pow (map (\<lambda>t. fl_add (fl_div (Fin 1) t) (Fin 1)) (T_k s)) u2))
     in map2 fl_add (x s) y)"

definition within_bounds :: "Anneal \<Rightarrow> fl list \<Rightarrow> bool" where
  "within_bounds s x_new = (vv_le x_new (range_max s) \<and> vv_ge x_new (range_min s))"

fun generate_loop :: "Anneal \<Rightarrow> real list list \<Rightarrow> (fl list \<times> real list list) option" where
  "generate_loop s [] = None"
| "generate_loop s (u # gs) =
     (let x_new = offset_point s u
      in if within_bounds s x_new then Some (x_new, gs) else generate_loop s gs)"

definition generate_next :: "Anneal \<Rightarrow> real list list \<Rightarrow> (Anneal \<times> real list list) option" where
  "generate_next s gs =
    (case generate_loop s gs of
       None \<Rightarrow> None
     | Some (x_new, gs') \<Rightarrow>
         Some (s\<lparr> num_generated := num_generated s + 1,
                  num_generated_recently := num_generated_recently s + 1,
                  x_cand := x_new \<rparr>, gs'))"

subsection \<open>Cooling schedule\<close>

definition cooled :: "fl \<Rightarrow> fl list \<Rightarrow> fl list \<Rightarrow> 32 word \<Rightarrow> nat \<Rightarrow> fl list" where
  "cooled e T0 cs cnt d =
    max_elementwise e
      (map2 fl_mul T0
         (map (\<lambda>a. fl_exp (fl_mul (fl_neg a)
                      (fl_pow (of_uint cnt) (fl_div (Fin 1) (Fin (real d)))))) cs))"

definition cooling_schedule :: "Anneal \<Rightarrow> Anneal" where
  "cooling_schedule s =
     s\<lparr> T_k := cooled (eps s) (T_0 s) (c s) (k s) (D s),
        T_cost := cooled (eps s) (T_cost_0 s) (c_cost s) (k_cost s) (D s) \<rparr>"

subsection \<open>Acceptance check\<close>

definition candidate_is_better :: "Anneal \<Rightarrow> bool" where
  "candidate_is_better s =
    ((downhill s \<and> fl_lt (f_x_cand s) (f_x s)) \<or> (\<not> downhill s \<and> fl_gt (f_x_cand s) (f_x s)))"

text \<open>The probability \<open>p\<close> after \<open>p = std::min (T{1}, p)\<close>.\<close>

definition acceptance_probability :: "Anneal \<Rightarrow> fl" where
  "acceptance_probability s =
    fl_min (Fin 1)
      (fl_exp (fl_div (fl_neg (fl_sub (f_x_cand s) (f_x s))) (fl_add (eps s) (mean (T_cost s)))))"

text \<open>The condition under which \<open>x_cand\<close> becomes \<open>x_best\<close>.\<close>

definition new_best :: "Anneal \<Rightarrow> bool" where
  "new_best s =
    ((downhill s \<and>
        fl_lt (fl_add (fl_sub (f_x_cand s) (f_x_best s)) (objective_repeat_precision s)) (Fin 0))
     \<or> (\<not> downhill s \<and>
        fl_gt (fl_sub (fl_sub (f_x_cand s) (f_x_best s)) (objective_repeat_precision s)) (Fin 0)))"

text \<open>The branch \<open>if (accepted)\<close> and its \<open>else\<close>.\<close>

definition accept_candidate :: "Anneal \<Rightarrow> Anneal" where
  "accept_candidate s =
    (let s1 = s\<lparr> k_cost := k_cost s + 1,
                 num_accepted := num_accepted s + 1,
                 num_accepted_recently := num_accepted_recently s + 1 \<rparr>;
         s2 = s1\<lparr> f_x_best_repeats := f_x_best_repeats s1 +
                    (if fl_le (fl_abs (fl_sub (f_x_cand s1) (f_x_best s1)))
                              (objective_repeat_precision s1) then 1 else 0) \<rparr>;
         s3 = (if new_best s2
               then s2\<lparr> f_x_best_repeats := 0,
                        x_best := x_cand s2,
                        num_accepted_best := num_accepted s2,
                        num_generated_best := num_generated s2,
                        num_accepted_recently := 0,
                        num_generated_recently := 0,
                        f_x_best := f_x_cand s2 \<rparr>
               else s2)
     in s3\<lparr> x := x_cand s3,
            f_x := f_x_cand s3,
            param_hist_accepted := param_hist_accepted s3 @ [x_cand s3],
            f_param_hist_accepted := f_param_hist_accepted s3 @ [f_x_cand s3] \<rparr>)"

definition reject_candidate :: "Anneal \<Rightarrow> Anneal" where
  "reject_candidate s =
     s\<lparr> param_hist_rejected := param_hist_rejected s @ [x s],
        f_param_hist_rejected := f_param_hist_rejected s @ [f_x s] \<rparr>"

text \<open>\<open>bool accepted = p >= u ? true : false\<close>, for the number \<open>u\<close> drawn.\<close>

definition accepted :: "Anneal \<Rightarrow> real \<Rightarrow> bool" where
  "accepted s u = fl_ge (acceptance_probability s) (Fin u)"

text \<open>
  \<open>acceptance_check\<close>. \<open>us\<close> holds the numbers \<open>rng_u.get()\<close> will return, in order;
  the call takes the first. \<open>tally_candidate\<close> is the counting of improved, worse and
  worse but accepted candidates.
\<close>

definition tally_candidate :: "Anneal \<Rightarrow> real \<Rightarrow> Anneal" where
  "tally_candidate s u =
    (let s1 = (if candidate_is_better s then s\<lparr> num_improved := num_improved s + 1 \<rparr>
               else s\<lparr> num_worse := num_worse s + 1 \<rparr>)
     in if \<not> candidate_is_better s \<and> accepted s u
        then s1\<lparr> num_worse_accepted := num_worse_accepted s1 + 1 \<rparr> else s1)"

definition acceptance_check :: "Anneal \<Rightarrow> real list \<Rightarrow> (Anneal \<times> real list) option" where
  "acceptance_check s us =
    (case us of
       [] \<Rightarrow> None
     | u # us' \<Rightarrow>
         Some (if accepted s u then accept_candidate (tally_candidate s u)
               else reject_candidate (tally_candidate s u), us'))"

subsection \<open>Reanneal test and completion\<close>

definition accepted_vs_generated :: "Anneal \<Rightarrow> fl" where
  "accepted_vs_generated s =
     fl_add (of_uint (num_accepted_recently s))
       (fl_div (Fin 1) (fl_add (of_uint (num_generated_recently s)) (Fin 1)))"

definition reanneal_test :: "Anneal \<Rightarrow> bool \<times> Anneal" where
  "reanneal_test s =
    (if k_r s < min_steps_to_reanneal then (False, s)
     else if k_r s < reanneal_after_steps s
             \<and> fl_ge (accepted_vs_generated s) (acc_gen_reanneal_ratio s) then (False, s)
     else
       (let s1 = (if fl_lt (accepted_vs_generated s) (acc_gen_reanneal_ratio s)
                  then s\<lparr> num_accepted_recently := 0, num_generated_recently := 0 \<rparr> else s);
            s2 = s1\<lparr> x := x_best s1, f_x := f_x_best s1 \<rparr>
        in (True, s2\<lparr> x_plusdelta := generate_delta_parameter s2 (x s2) \<rparr>)))"

text \<open>
  \<open>(f_x_plusdelta - f_x) / (x_plusdelta - x + eps)\<close>, a scalar divided by a vector. Each
  of the four operations can overflow: after \<open>init\<close> the objective \<open>f_x\<close> is the largest
  or the lowest value of \<open>T\<close>.
\<close>

definition estimate_tangents :: "Anneal \<Rightarrow> fl list" where
  "estimate_tangents s =
    (let df = overflow (fp s) (fl_sub (f_x_plusdelta s) (f_x s))
     in map (\<lambda>d. overflow (fp s) (fl_div df (overflow (fp s) (fl_add d (eps s)))))
          (map (overflow (fp s)) (map2 fl_sub (x_plusdelta s) (x s))))"

text \<open>
  The second half of \<open>complete_reanneal\<close>, which resets the cost temperature and
  \<open>k_cost\<close>.
\<close>

definition reanneal_cost :: "Anneal \<Rightarrow> error \<times> Anneal + Anneal" where
  "reanneal_cost s =
    (let T_cost_0_candidates =
           map fl_abs [f_x s, f_x_best s, fl_sub (f_x_best s) (f_x s), eps s];
         T_cost_0' = min_elementwise (vmax T_cost_0_candidates) (T_cost_0 s);
         T_cost_candidates = [fl_abs (fl_sub (f_x_best s) (f_x s)), vmax (T_cost s), eps s];
         tmp_dbl1 = min_elementwise (vmax T_cost_candidates) T_cost_0';
         tvdb3 = map (\<lambda>a. fl_abs (fl_log a))
                   (map2 fl_div (map (\<lambda>a. fl_add a (eps s)) T_cost_0') tmp_dbl1)
     in case to_uint (fl_add (eps s)
                (mean (map (\<lambda>a. fl_pow a (Fin (real (D s)))) (map2 fl_div tvdb3 (c_cost s))))) of
          None \<Rightarrow> Inl (Undefined_behaviour, s\<lparr> T_cost_0 := T_cost_0' \<rparr>)
        | Some k_cost' \<Rightarrow>
            Inr (s\<lparr> T_cost_0 := T_cost_0',
                    k_cost := k_cost',
                    T_cost := cooled (eps s) T_cost_0' (c_cost s) k_cost' (D s),
                    k_r := 0 \<rparr>))"

definition complete_reanneal :: "Anneal \<Rightarrow> error \<times> Anneal + Anneal" where
  "complete_reanneal s =
    (let s1 = s\<lparr> tangents := estimate_tangents s \<rparr>
     in if has_nan_or_inf (tangents s1) then Inl (NaN_or_inf_in_tangents, s1)
        else if has_zero (tangents s1)
        then Inr (s1\<lparr> delta_param := fl_mul (delta_param s1) (Fin 2) \<rparr>)
        else
          (let abs_tangents = map fl_abs (tangents s1);
               max_tangent = vmax abs_tangents;
               T_re = map fl_abs
                        (map2 fl_mul (T_k s1) (map (\<lambda>t. fl_div max_tangent t) (tangents s1)))
           in if vs_gt T_re (Fin 0)
              then (case to_uint (mean (map (\<lambda>a. fl_pow a (Fin (real (D s1))))
                                   (map2 fl_div (map fl_log (map2 fl_div (T_0 s1) T_re)) (c s1)))) of
                      None \<Rightarrow> Inl (Undefined_behaviour, s1)
                    | Some k_re \<Rightarrow> reanneal_cost (s1\<lparr> k := k_re, T_k := T_re \<rparr>))
              else Inl (Temp_not_positive, s1)))"

subsection \<open>Stop conditions and \<open>step\<close>\<close>

text \<open>\<open>stop_check\<close> reads \<open>T_k[0]\<close> and \<open>T_cost[0]\<close>, which do not exist when \<open>D = 0\<close>.\<close>

definition stop_check :: "Anneal \<Rightarrow> error \<times> Anneal + bool \<times> Anneal" where
  "stop_check s =
    (if exit_at_T_f s \<and> vv_lt (T_k s) (T_f s)
     then Inr (True, s\<lparr> reason_for_exit := T_k_less_than_T_f \<rparr>)
     else case T_k s of
       [] \<Rightarrow> Inl (Undefined_behaviour, s)
     | t0 # _ \<Rightarrow>
        if fl_le t0 (eps s) then Inr (True, s\<lparr> reason_for_exit := T_k_less_than_epsilon \<rparr>)
        else case T_cost s of
          [] \<Rightarrow> Inl (Undefined_behaviour, s)
        | tc0 # _ \<Rightarrow>
           if fl_le tc0 (eps s)
           then Inr (True, s\<lparr> reason_for_exit := T_cost_less_than_epsilon \<rparr>)
           else if f_x_best_repeat_max s \<le> f_x_best_repeats s
           then Inr (True, s\<lparr> reason_for_exit := f_x_best_repeated \<rparr>)
           else Inr (False, s))"

text \<open>
  The parts of \<open>step\<close> after the stop check and the completion of a reanneal:
  \<open>++k; ++k_r\<close>, the choice of the next state, and the whole.
\<close>

definition count_step :: "Anneal \<Rightarrow> Anneal" where
  "count_step s = s\<lparr> k := k s + 1, k_r := k_r s + 1 \<rparr>"

definition next_state :: "Anneal \<Rightarrow> Anneal" where
  "next_state s =
    (if enable_reanneal s
     then (case reanneal_test s of
             (True, s1) \<Rightarrow> s1\<lparr> state := NeedToComputeSet \<rparr>
           | (False, s1) \<Rightarrow> s1\<lparr> state := NeedToCompute \<rparr>)
     else s\<lparr> state := NeedToCompute \<rparr>)"

definition advance :: "Anneal \<Rightarrow> real list \<Rightarrow> real list list
    \<Rightarrow> error \<times> Anneal + Anneal \<times> real list \<times> real list list" where
  "advance s us gs =
    (case acceptance_check (cooling_schedule s) us of
       None \<Rightarrow> Inl (No_more_draws, cooling_schedule s)
     | Some (s1, us') \<Rightarrow>
        (case generate_next s1 gs of
           None \<Rightarrow> Inl (No_more_draws, s1)
         | Some (s2, gs') \<Rightarrow> Inr (next_state (count_step s2), us', gs')))"

definition step :: "Anneal \<Rightarrow> real list \<Rightarrow> real list list
    \<Rightarrow> error \<times> Anneal + Anneal \<times> real list \<times> real list list" where
  "step s us gs =
    (case stop_check (s\<lparr> steps := steps s + 1 \<rparr>) of
       Inl e \<Rightarrow> Inl e
     | Inr (True, s1) \<Rightarrow> Inr (s1\<lparr> state := ReadyToStop \<rparr>, us, gs)
     | Inr (False, s1) \<Rightarrow>
        if state s1 = NeedToComputeSet
        then (case complete_reanneal s1 of
                Inl e \<Rightarrow> Inl e
              | Inr s2 \<Rightarrow> advance (s2\<lparr> state := NeedToStep \<rparr>) us gs)
        else advance s1 us gs)"

section \<open>The acceptance check of \<open>AdaptiveAnneal<T>\<close>\<close>

text \<open>
  The members of \<open>AdaptiveAnneal<T>\<close> that \<open>AdaptiveAnneal::acceptance_check\<close> reads
  or writes, under their names with the prefix \<open>aa_\<close>, and the function.
\<close>

record AdaptiveAnneal =
  aa_fp :: fptype
  aa_downhill :: bool
  aa_x_cand :: "fl list"
  aa_f_x_cand :: fl
  aa_x :: "fl list"
  aa_f_x :: fl
  aa_x_best :: "fl list"
  aa_f_x_best :: fl
  aa_f_x_best_repeats :: "32 word"
  aa_num_improved :: "32 word"
  aa_num_worse :: "32 word"
  aa_num_worse_accepted :: "32 word"
  aa_num_accepted :: "32 word"
  aa_param_hist :: "fl list list"
  aa_f_param_hist :: "fl list"
  aa_temp_cost :: "fl list"

definition aa_probability :: "AdaptiveAnneal \<Rightarrow> fl" where
  "aa_probability s =
     fl_exp (fl_div (fl_neg (fl_sub (aa_f_x_cand s) (aa_f_x s)))
               (fl_add (Fin (epsilon (aa_fp s))) (mean (aa_temp_cost s))))"

text \<open>\<open>bool accepted = p > u ? true : false\<close>.\<close>

definition aa_accepted :: "AdaptiveAnneal \<Rightarrow> real \<Rightarrow> bool" where
  "aa_accepted s u = fl_gt (aa_probability s) (Fin u)"

definition aa_accept_candidate :: "AdaptiveAnneal \<Rightarrow> AdaptiveAnneal" where
  "aa_accept_candidate s =
    (let s1 = s\<lparr> aa_x := aa_x_cand s, aa_f_x := aa_f_x_cand s,
                 aa_param_hist := aa_param_hist s @ [aa_x_cand s],
                 aa_f_param_hist := aa_f_param_hist s @ [aa_f_x_cand s] \<rparr>;
         s2 = s1\<lparr> aa_f_x_best_repeats := aa_f_x_best_repeats s1 +
                    (if fl_eq (aa_f_x_cand s1) (aa_f_x_best s1) then 1 else 0) \<rparr>;
         s3 = (if fl_lt (aa_f_x_cand s2) (aa_f_x_best s2)
               then s2\<lparr> aa_f_x_best_repeats := 0, aa_x_best := aa_x_cand s2 \<rparr> else s2);
         s4 = (if fl_lt (aa_f_x_cand s3) (aa_f_x_best s3)
               then s3\<lparr> aa_f_x_best := aa_f_x_cand s3 \<rparr> else s3)
     in s4\<lparr> aa_num_accepted := aa_num_accepted s4 + 1 \<rparr>)"

definition aa_acceptance_check ::
    "AdaptiveAnneal \<Rightarrow> real list \<Rightarrow> ((bool \<times> AdaptiveAnneal) \<times> real list) option" where
  "aa_acceptance_check s us =
    (case us of
       [] \<Rightarrow> None
     | u # us' \<Rightarrow>
        (let better = ((aa_downhill s \<and> fl_lt (aa_f_x_cand s) (aa_f_x s))
                       \<or> (\<not> aa_downhill s \<and> fl_gt (aa_f_x_cand s) (aa_f_x s)));
             s1 = (if better then s\<lparr> aa_num_improved := aa_num_improved s + 1 \<rparr>
                   else s\<lparr> aa_num_worse := aa_num_worse s + 1 \<rparr>);
             s2 = (if \<not> better \<and> aa_accepted s u
                   then s1\<lparr> aa_num_worse_accepted := aa_num_worse_accepted s1 + 1 \<rparr> else s1)
         in Some ((aa_accepted s u, if aa_accepted s u then aa_accept_candidate s2 else s2), us')))"

section \<open>What a step leaves alone\<close>

text \<open>
  The members that no function called by \<open>step\<close> assigns: the template argument, the
  settings of the user but \<open>delta_param\<close>, the dimension, and the vectors that
  \<open>init\<close> computes once.
\<close>

definition same_setup :: "Anneal \<Rightarrow> Anneal \<Rightarrow> bool" where
  "same_setup s s' =
    (fp s' = fp s \<and> downhill s' = downhill s
     \<and> objective_repeat_precision s' = objective_repeat_precision s
     \<and> f_x_best_repeat_max s' = f_x_best_repeat_max s
     \<and> enable_reanneal s' = enable_reanneal s
     \<and> reanneal_after_steps s' = reanneal_after_steps s
     \<and> exit_at_T_f s' = exit_at_T_f s
     \<and> acc_gen_reanneal_ratio s' = acc_gen_reanneal_ratio s
     \<and> D s' = D s \<and> T_0 s' = T_0 s \<and> T_f s' = T_f s \<and> c s' = c s \<and> c_cost s' = c_cost s
     \<and> range_min s' = range_min s \<and> range_max s' = range_max s)"

text \<open>The smallest element of a vector, as \<open>vmax\<close> is the largest.\<close>

definition vmin :: "fl list \<Rightarrow> fl" where
  "vmin xs = (case xs of [] \<Rightarrow> Fin 0 | a # as \<Rightarrow> foldl fl_min a as)"

text \<open>
  \<open>no_worse s s'\<close>: the best objective of \<open>s'\<close> is the one of \<open>s\<close> or strictly
  better in the direction of the search. \<open>kept s s'\<close> adds that the setup is the same,
  and asks for \<open>no_worse\<close> when the tolerance \<open>objective_repeat_precision\<close> is not
  negative.
\<close>

definition no_worse :: "Anneal \<Rightarrow> Anneal \<Rightarrow> bool" where
  "no_worse s s' =
    (f_x_best s' = f_x_best s
     \<or> (if downhill s then fl_lt (f_x_best s') (f_x_best s)
         else fl_lt (f_x_best s) (f_x_best s')))"

definition kept :: "Anneal \<Rightarrow> Anneal \<Rightarrow> bool" where
  "kept s s' =
    (same_setup s s' \<and> (fl_le (Fin 0) (objective_repeat_precision s) \<longrightarrow> no_worse s s'))"

text \<open>
  The temperatures of all dimensions are equal: \<open>T_0\<close>, \<open>c\<close> and \<open>T_k\<close> hold one
  value \<open>D\<close> times.
\<close>

definition level_temperatures :: "Anneal \<Rightarrow> bool" where
  "level_temperatures s =
    (\<exists>a b v. T_0 s = replicate (D s) a \<and> c s = replicate (D s) b \<and> T_k s = replicate (D s) v)"

section \<open>Runs\<close>

text \<open>
  An object is configured when it comes from the constructor and the client has set any
  of the parameters ``to be adjusted by user before calling \<open>Anneal::init()\<close>''.
\<close>

inductive configured :: "Anneal \<Rightarrow> bool" where
  constructed: "length rs \<le> length x0 \<Longrightarrow> configured (Anneal_new t x0 rs)"
| set_downhill: "configured s \<Longrightarrow> configured (s\<lparr> downhill := b \<rparr>)"
| set_temperature_ratio_scale:
    "configured s \<Longrightarrow> configured (s\<lparr> temperature_ratio_scale := v \<rparr>)"
| set_temperature_anneal_scale:
    "configured s \<Longrightarrow> configured (s\<lparr> temperature_anneal_scale := v \<rparr>)"
| set_cost_parameter_scale_ratio:
    "configured s \<Longrightarrow> configured (s\<lparr> cost_parameter_scale_ratio := v \<rparr>)"
| set_acc_gen_reanneal_ratio:
    "configured s \<Longrightarrow> configured (s\<lparr> acc_gen_reanneal_ratio := v \<rparr>)"
| set_delta_param: "configured s \<Longrightarrow> configured (s\<lparr> delta_param := v \<rparr>)"
| set_objective_repeat_precision:
    "configured s \<Longrightarrow> configured (s\<lparr> objective_repeat_precision := v \<rparr>)"
| set_f_x_best_repeat_max:
    "configured s \<Longrightarrow> configured (s\<lparr> f_x_best_repeat_max := w \<rparr>)"
| set_enable_reanneal: "configured s \<Longrightarrow> configured (s\<lparr> enable_reanneal := b \<rparr>)"
| set_reanneal_after_steps:
    "configured s \<Longrightarrow> configured (s\<lparr> reanneal_after_steps := w \<rparr>)"
| set_exit_at_T_f: "configured s \<Longrightarrow> configured (s\<lparr> exit_at_T_f := b \<rparr>)"

text \<open>
  Modelled from the spec: the client code is not among the sources. ``The caller owns
  evaluation of the objective function and must never mutate \<open>x\<close>, \<open>x_cand\<close>,
  \<open>x_best\<close>, or counters directly'': between two calls of \<open>step\<close> it stores an
  objective in \<open>f_x_cand\<close> or in \<open>f_x_plusdelta\<close>. \<open>reaches s s'\<close>: the object
  \<open>s\<close> can become \<open>s'\<close> in a run, whatever the objectives and the random numbers are.
\<close>

inductive reaches :: "Anneal \<Rightarrow> Anneal \<Rightarrow> bool" where
  here: "reaches s s"
| objective: "reaches s s1 \<Longrightarrow> reaches s (s1\<lparr> f_x_cand := v \<rparr>)"
| probe_objective: "reaches s s1 \<Longrightarrow> reaches s (s1\<lparr> f_x_plusdelta := v \<rparr>)"
| stepped: "reaches s s1 \<Longrightarrow> step s1 us gs = Inr (s2, us', gs') \<Longrightarrow> reaches s s2"

definition reachable :: "Anneal \<Rightarrow> bool" where
  "reachable s = (\<exists>a. configured a \<and> reaches (init a) s)"

text \<open>
  Modelled from the spec: the loop of the client for an objective function \<open>f\<close>. In
  \<open>NeedToCompute\<close> it ``must compute the objective at \<open>x_cand\<close> and store it as
  \<open>f_x_cand\<close>, then call step''; in \<open>NeedToComputeSet\<close> it does so for
  \<open>x_plusdelta\<close> and \<open>f_x_plusdelta\<close>; it ends in \<open>ReadyToStop\<close>. The first
  argument of \<open>optimise\<close> bounds the number of calls of \<open>step\<close>.
\<close>

definition client :: "(fl list \<Rightarrow> fl) \<Rightarrow> Anneal \<Rightarrow> Anneal" where
  "client f s =
    (if state s = NeedToCompute then s\<lparr> f_x_cand := f (x_cand s) \<rparr>
     else if state s = NeedToComputeSet then s\<lparr> f_x_plusdelta := f (x_plusdelta s) \<rparr>
     else s)"

fun optimise :: "nat \<Rightarrow> (fl list \<Rightarrow> fl) \<Rightarrow> Anneal \<Rightarrow> real list \<Rightarrow> real list list
    \<Rightarrow> error \<times> Anneal + Anneal \<times> real list \<times> real list list" where
  "optimise 0 f s us gs = Inr (s, us, gs)"
| "optimise (Suc j) f s us gs =
     (if state s = ReadyToStop then Inr (s, us, gs)
      else case step (client f s) us gs of
             Inl e \<Rightarrow> Inl e
           | Inr (s', us', gs') \<Rightarrow> optimise j f s' us' gs')"

text \<open>
  The object after a call of \<open>step\<close>, whether the call returned or threw, and the
  error of a call that threw.
\<close>

definition after :: "error \<times> Anneal + Anneal \<times> real list \<times> real list list \<Rightarrow> Anneal" where
  "after r = (case r of Inl (e, s) \<Rightarrow> s | Inr (s, rest) \<Rightarrow> s)"

definition raised :: "error \<times> Anneal + Anneal \<times> real list \<times> real list list \<Rightarrow> error option" where
  "raised r = (case r of Inl (e, s) \<Rightarrow> Some e | Inr v \<Rightarrow> None)"


definition constant_objective :: "fl \<Rightarrow> fl list \<Rightarrow> fl" where
  "constant_objective v p = v"


section \<open>Objects used as examples\<close>

text \<open>One parameter, 5 in [0, 10], every setting at its default, after \<open>init\<close>.\<close>

definition plain :: Anneal where
  "plain = init (Anneal_new Float64 [Fin 5] [(Fin 0, Fin 10)])"

text \<open>
  One parameter, 100 in [99.5, 100.5], at the hundredth step since the last reanneal.
\<close>

definition narrow :: Anneal where
  "narrow = (init (Anneal_new Float64 [Fin 100] [(Fin (199 / 2), Fin (201 / 2))]))\<lparr> k_r := 100 \<rparr>"

text \<open>
  Ten steps after a reanneal, five of nine recent candidates accepted, and a threshold
  of 0.7 for the ratio.
\<close>

definition stalled :: Anneal where
  "stalled =
     (init ((Anneal_new Float64 [Fin 5] [(Fin 0, Fin 10)])\<lparr> acc_gen_reanneal_ratio := Fin (7 / 10) \<rparr>))
       \<lparr> k_r := 10, num_accepted_recently := 5, num_generated_recently := 9 \<rparr>"

text \<open>
  A probe at 5.05 whose objective equals the objective at \<open>x\<close>: a zero tangent.
\<close>

definition flat_probe :: Anneal where
  "flat_probe = plain\<lparr> state := NeedToComputeSet, f_x := Fin 3,
                        x_plusdelta := [Fin (101 / 20)], f_x_plusdelta := Fin 3 \<rparr>"

text \<open>
  An \<open>AdaptiveAnneal\<close> whose candidate has the objective \<open>+inf\<close>, and an \<open>Anneal\<close>
  with the same objectives and cost temperature.
\<close>

definition aa_tie :: AdaptiveAnneal where
  "aa_tie = \<lparr> aa_fp = Float64, aa_downhill = True,
              aa_x_cand = [Fin 4], aa_f_x_cand = PInf,
              aa_x = [Fin 5], aa_f_x = Fin 0,
              aa_x_best = [Fin 5], aa_f_x_best = Fin 0,
              aa_f_x_best_repeats = 0, aa_num_improved = 1, aa_num_worse = 0,
              aa_num_worse_accepted = 0, aa_num_accepted = 1,
              aa_param_hist = [[Fin 5]], aa_f_param_hist = [Fin 0],
              aa_temp_cost = [Fin 1] \<rparr>"

definition tie :: Anneal where
  "tie = plain\<lparr> f_x_cand := PInf, f_x := Fin 0, f_x_best := Fin 0, T_cost := [Fin 1] \<rparr>"

text \<open>
  A probe whose objective the caller stored as NaN, and the same when the best objective
  has been repeated \<open>f_x_best_repeat_max\<close> times.
\<close>

definition nan_probe :: Anneal where
  "nan_probe = plain\<lparr> state := NeedToComputeSet, f_x := Fin 3,
                       x_plusdelta := [Fin (101 / 20)], f_x_plusdelta := NaN \<rparr>"

definition nan_probe_at_limit :: Anneal where
  "nan_probe_at_limit = nan_probe\<lparr> f_x_best_repeats := 10 \<rparr>"

text \<open>
  An ascending search right after \<open>init\<close>, when \<open>f_x\<close> is the lowest value of \<open>T\<close>, with
  a probe at 5.05 whose objective is 1.
\<close>

definition lowest_probe :: Anneal where
  "lowest_probe =
     (init ((Anneal_new Float64 [Fin 5] [(Fin 0, Fin 10)])\<lparr> downhill := False \<rparr>))
       \<lparr> state := NeedToComputeSet, x_plusdelta := [Fin (101 / 20)], f_x_plusdelta := Fin 1 \<rparr>"

text \<open>
  The default settings but a negative tolerance, \<open>objective_repeat_precision = -1\<close>, and
  an objective that is 0 at the initial point and one half elsewhere.
\<close>

definition loose :: Anneal where
  "loose = init ((Anneal_new Float64 [Fin 5] [(Fin 0, Fin 10)])
                   \<lparr> objective_repeat_precision := Fin (- 1) \<rparr>)"

definition dip :: "fl list \<Rightarrow> fl" where
  "dip p = (if p = [Fin 5] then Fin 0 else Fin (1 / 2))"

text \<open>
  The control parameter \<open>c\<close> of the default settings for one dimension,
  \<open>- log(1e-5) * exp(- log(100) / 1)\<close>.
\<close>

definition c_default :: real where
  "c_default = ln 100000 / 100"

text \<open>
  The default settings but \<open>f_x_best_repeat_max = 1\<close>, the objective that is 0
  everywhere, and random numbers: each acceptance draw is 0 and each generation draw is
  one half, which leaves the candidate where \<open>x\<close> is.
\<close>

definition once :: Anneal where
  "once = init ((Anneal_new Float64 [Fin 5] [(Fin 0, Fin 10)])\<lparr> f_x_best_repeat_max := 1 \<rparr>)"

definition zero_objective :: "fl list \<Rightarrow> fl" where
  "zero_objective = constant_objective (Fin 0)"

text \<open>
  Settings under which the temperature is at the floor after one step:
  \<open>temperature_anneal_scale = 1\<close> and \<open>temperature_ratio_scale\<close> = 2 to the -60.
\<close>

definition quick :: Anneal where
  "quick = init ((Anneal_new Float64 [Fin 5] [(Fin 0, Fin 10)])
                   \<lparr> temperature_ratio_scale := Fin (1 / 2 ^ 60),
                     temperature_anneal_scale := Fin 1 \<rparr>)"

section \<open>Properties\<close>

subsection \<open>Arithmetic of \<open>T\<close>\<close>

lemma fl_lt_trans: "fl_lt a b \<Longrightarrow> fl_lt b d \<Longrightarrow> fl_lt a d"
  by (cases a; cases b; cases d) auto

lemma fl_max_Fin: "fl_max (Fin a) (Fin b) = Fin (max a b)"
  by (simp add: fl_max_def max_def)

lemma fl_min_self: "fl_min a a = a"
  by (simp add: fl_min_def)

lemma vmin_replicate: "0 < j \<Longrightarrow> vmin (replicate j v) = v"
proof -
  have "foldl fl_min v (replicate i v) = v" for i
    by (induction i) (simp_all add: fl_min_self)
  then show "0 < j \<Longrightarrow> vmin (replicate j v) = v"
    by (cases j) (simp_all add: vmin_def)
qed

subsection \<open>What each function of a step leaves alone\<close>

lemma same_setup_refl: "same_setup s s"
  by (simp add: same_setup_def)

lemma same_setup_trans: "same_setup s s1 \<Longrightarrow> same_setup s1 s2 \<Longrightarrow> same_setup s s2"
  by (simp add: same_setup_def)

lemma same_setup_updates:
  "same_setup s (s\<lparr> steps := w \<rparr>)"
  "same_setup s (s\<lparr> state := st \<rparr>)"
  "same_setup s (s\<lparr> reason_for_exit := r \<rparr>)"
  "same_setup s (s\<lparr> f_x_cand := v \<rparr>)"
  "same_setup s (s\<lparr> f_x_plusdelta := v \<rparr>)"
  by (simp_all add: same_setup_def)

lemma same_setup_cooling_schedule: "same_setup s (cooling_schedule s)"
  by (simp add: same_setup_def cooling_schedule_def)

lemma same_setup_tally_candidate: "same_setup s (tally_candidate s u)"
  by (simp add: same_setup_def tally_candidate_def Let_def)

lemma same_setup_accept_candidate: "same_setup s (accept_candidate s)"
  by (simp add: same_setup_def accept_candidate_def Let_def)

lemma same_setup_reject_candidate: "same_setup s (reject_candidate s)"
  by (simp add: same_setup_def reject_candidate_def)

lemma acceptance_check_Cons:
  "acceptance_check s (u # us) =
     Some (if accepted s u then accept_candidate (tally_candidate s u)
           else reject_candidate (tally_candidate s u), us)"
  by (simp add: acceptance_check_def)

lemma acceptance_check_Some:
  assumes "acceptance_check s us = Some (s', us')"
  obtains u where "us = u # us'"
    and "s' = (if accepted s u then accept_candidate (tally_candidate s u)
               else reject_candidate (tally_candidate s u))"
  using assms by (cases us) (auto simp add: acceptance_check_def)

lemma same_setup_acceptance_check:
  assumes "acceptance_check s us = Some (s', us')"
  shows "same_setup s s'"
proof -
  from assms obtain u where
    "s' = (if accepted s u then accept_candidate (tally_candidate s u)
           else reject_candidate (tally_candidate s u))"
    by (rule acceptance_check_Some)
  then show ?thesis
    using same_setup_trans [OF same_setup_tally_candidate same_setup_accept_candidate]
      same_setup_trans [OF same_setup_tally_candidate same_setup_reject_candidate]
    by simp
qed

lemma generate_next_Some:
  assumes "generate_next s gs = Some (s', gs')"
  obtains x_new where "generate_loop s gs = Some (x_new, gs')"
    and "s' = s\<lparr> num_generated := num_generated s + 1,
                  num_generated_recently := num_generated_recently s + 1,
                  x_cand := x_new \<rparr>"
  using assms by (auto simp add: generate_next_def split: option.splits)

lemma same_setup_generate_next:
  "generate_next s gs = Some (s', gs') \<Longrightarrow> same_setup s s'"
  by (erule generate_next_Some) (simp add: same_setup_def)

lemma same_setup_count_step: "same_setup s (count_step s)"
  by (simp add: same_setup_def count_step_def)

lemma same_setup_reanneal_test: "same_setup s (snd (reanneal_test s))"
  by (simp add: same_setup_def reanneal_test_def Let_def)

lemma next_state_eq:
  "next_state s =
     (if enable_reanneal s
      then (snd (reanneal_test s))
             \<lparr> state := (if fst (reanneal_test s) then NeedToComputeSet else NeedToCompute) \<rparr>
      else s\<lparr> state := NeedToCompute \<rparr>)"
  by (cases "reanneal_test s") (simp add: next_state_def split: bool.splits)

lemma same_setup_next_state: "same_setup s (next_state s)"
  unfolding next_state_eq
  using same_setup_trans [OF same_setup_reanneal_test same_setup_updates(2)]
    same_setup_updates(2) by simp

lemma same_setup_reanneal_cost: "reanneal_cost s = Inr s' \<Longrightarrow> same_setup s s'"
  by (auto simp add: reanneal_cost_def Let_def same_setup_def split: option.splits)

lemma same_setup_complete_reanneal:
  assumes "complete_reanneal s = Inr s'"
  shows "same_setup s s'"
proof -
  have 1: "same_setup s (s\<lparr> tangents := v, delta_param := w \<rparr>)" for v w
    by (simp add: same_setup_def)
  have 2: "same_setup s (s\<lparr> tangents := v, k := w, T_k := y \<rparr>)" for v w y
    by (simp add: same_setup_def)
  show ?thesis
    using assms 1
    by (auto simp add: complete_reanneal_def Let_def split: if_splits option.splits
        dest!: same_setup_reanneal_cost dest: same_setup_trans [OF 2])
qed

subsection \<open>The structure of a step\<close>

lemma stop_check_result:
  "stop_check s = Inr (b, s') \<Longrightarrow> s' = s\<lparr> reason_for_exit := reason_for_exit s' \<rparr>"
  by (auto simp add: stop_check_def split: if_splits list.splits)

lemma stop_check_continue: "stop_check s = Inr (False, s') \<Longrightarrow> s' = s"
  by (auto simp add: stop_check_def split: if_splits list.splits)

lemma stop_check_steps:
  "stop_check (s\<lparr> steps := w \<rparr>) =
     map_sum (\<lambda>(e, a). (e, a\<lparr> steps := w \<rparr>)) (\<lambda>(b, a). (b, a\<lparr> steps := w \<rparr>)) (stop_check s)"
  by (simp add: stop_check_def eps_def split: list.splits)

text \<open>
  A call of \<open>step\<close> that returns has either stopped, with nothing but \<open>steps\<close>,
  \<open>reason_for_exit\<close> and \<open>state\<close> assigned and no random number taken, or gone
  through \<open>advance\<close> from an object of the same setup.
\<close>

lemma step_cases:
  assumes "step s us gs = Inr (s', us', gs')"
  obtains (stopped) r where
      "stop_check (s\<lparr> steps := steps s + 1 \<rparr>)
         = Inr (True, s\<lparr> steps := steps s + 1, reason_for_exit := r \<rparr>)"
      "s' = s\<lparr> steps := steps s + 1, reason_for_exit := r, state := ReadyToStop \<rparr>"
      "us' = us" "gs' = gs"
  | (plain_step) "stop_check (s\<lparr> steps := steps s + 1 \<rparr>) = Inr (False, s\<lparr> steps := steps s + 1 \<rparr>)"
      "state s \<noteq> NeedToComputeSet"
      "advance (s\<lparr> steps := steps s + 1 \<rparr>) us gs = Inr (s', us', gs')"
  | (reannealed) s2 where
      "stop_check (s\<lparr> steps := steps s + 1 \<rparr>) = Inr (False, s\<lparr> steps := steps s + 1 \<rparr>)"
      "state s = NeedToComputeSet"
      "complete_reanneal (s\<lparr> steps := steps s + 1 \<rparr>) = Inr s2"
      "advance (s2\<lparr> state := NeedToStep \<rparr>) us gs = Inr (s', us', gs')"
proof -
  let ?s0 = "s\<lparr> steps := steps s + 1 \<rparr>"
  from assms obtain b s1 where sc: "stop_check ?s0 = Inr (b, s1)"
    by (auto simp add: step_def split: sum.splits)
  show thesis
  proof (cases b)
    case True
    have s1: "s1 = ?s0\<lparr> reason_for_exit := reason_for_exit s1 \<rparr>"
      using stop_check_result [OF sc] .
    have "s' = s1\<lparr> state := ReadyToStop \<rparr> \<and> us' = us \<and> gs' = gs"
      using assms sc True by (simp add: step_def)
    then show thesis
      using stopped [of "reason_for_exit s1"] sc True s1 by simp
  next
    case False
    then have s1: "s1 = ?s0"
      using sc stop_check_continue [of ?s0 s1] by simp
    show thesis
    proof (cases "state s = NeedToComputeSet")
      case True
      with False assms sc s1 obtain s2 where
        "complete_reanneal ?s0 = Inr s2"
        "advance (s2\<lparr> state := NeedToStep \<rparr>) us gs = Inr (s', us', gs')"
        by (auto simp add: step_def split: sum.splits)
      then show thesis
        using reannealed sc False s1 True by simp
    next
      case nset: False
      with False assms sc s1 have "advance ?s0 us gs = Inr (s', us', gs')"
        by (simp add: step_def)
      then show thesis
        using plain_step sc False s1 nset by simp
    qed
  qed
qed

lemma advance_Some:
  assumes "advance s us gs = Inr (s', us', gs')"
  obtains s1 s2 where
    "acceptance_check (cooling_schedule s) us = Some (s1, us')"
    "generate_next s1 gs = Some (s2, gs')"
    "s' = next_state (count_step s2)"
  using assms by (auto simp add: advance_def split: option.splits)

text \<open>
  A transitive relation that holds across each part of a step holds across the step.
\<close>

lemma advance_relation:
  assumes trans: "\<And>s s1 s2. R s s1 \<Longrightarrow> R s1 s2 \<Longrightarrow> R s s2"
    and acc: "\<And>s us s' us'. acceptance_check s us = Some (s', us') \<Longrightarrow> R s s'"
    and gen: "\<And>s gs s' gs'. generate_next s gs = Some (s', gs') \<Longrightarrow> R s s'"
    and cnt: "\<And>s. R s (count_step s)"
    and nxt: "\<And>s. R s (next_state s)"
    and run: "advance s us gs = Inr (s', us', gs')"
  shows "R (cooling_schedule s) s'"
proof -
  from run obtain s1 s2 where
    1: "acceptance_check (cooling_schedule s) us = Some (s1, us')"
    and 2: "generate_next s1 gs = Some (s2, gs')"
    and 3: "s' = next_state (count_step s2)"
    by (rule advance_Some)
  have "R (cooling_schedule s) s2"
    using trans [OF acc [OF 1] gen [OF 2]] .
  then have "R (cooling_schedule s) (count_step s2)"
    using cnt trans by blast
  then show ?thesis
    unfolding 3 using nxt trans by blast
qed

lemma step_relation:
  assumes trans: "\<And>s s1 s2. R s s1 \<Longrightarrow> R s1 s2 \<Longrightarrow> R s s2"
    and stp: "\<And>s w. R s (s\<lparr> steps := w \<rparr>)"
    and st: "\<And>s w. R s (s\<lparr> state := w \<rparr>)"
    and rs: "\<And>s w. R s (s\<lparr> reason_for_exit := w \<rparr>)"
    and cool: "\<And>s. R s (cooling_schedule s)"
    and cr: "\<And>s s'. complete_reanneal s = Inr s' \<Longrightarrow> R s s'"
    and adv: "\<And>s us gs s' us' gs'. advance s us gs = Inr (s', us', gs')
                \<Longrightarrow> R (cooling_schedule s) s'"
    and run: "step s us gs = Inr (s', us', gs')"
  shows "R s s'"
  using run
proof (cases rule: step_cases)
  case (stopped r)
  have "R s (s\<lparr> steps := steps s + 1 \<rparr>)"
    by (rule stp)
  then have "R s (s\<lparr> steps := steps s + 1, reason_for_exit := r \<rparr>)"
    using rs trans by blast
  then show ?thesis
    unfolding stopped(2) using st trans by blast
next
  case plain_step
  have "R (s\<lparr> steps := steps s + 1 \<rparr>) s'"
    using cool adv [OF plain_step(3)] trans by blast
  then show ?thesis
    using stp trans by blast
next
  case (reannealed s2)
  have "R s s2"
    using stp cr [OF reannealed(3)] trans by blast
  then have "R s (s2\<lparr> state := NeedToStep \<rparr>)"
    using st trans by blast
  moreover have "R (s2\<lparr> state := NeedToStep \<rparr>) s'"
    using cool adv [OF reannealed(4)] trans by blast
  ultimately show ?thesis
    using trans by blast
qed

lemma same_setup_advance:
  "advance s us gs = Inr (s', us', gs') \<Longrightarrow> same_setup (cooling_schedule s) s'"
  by (rule advance_relation [where R = same_setup])
     (blast intro: same_setup_trans same_setup_acceptance_check same_setup_generate_next
        same_setup_count_step same_setup_next_state)+

lemma same_setup_step:
  "step s us gs = Inr (s', us', gs') \<Longrightarrow> same_setup s s'"
  by (rule step_relation [where R = same_setup])
     (blast intro: same_setup_trans same_setup_updates same_setup_cooling_schedule
        same_setup_complete_reanneal same_setup_advance)+

lemma tally_candidate_fields:
  "f_x_cand (tally_candidate s u) = f_x_cand s"
  "f_x (tally_candidate s u) = f_x s"
  "f_x_best (tally_candidate s u) = f_x_best s"
  "x_cand (tally_candidate s u) = x_cand s"
  "x (tally_candidate s u) = x s"
  "x_best (tally_candidate s u) = x_best s"
  "downhill (tally_candidate s u) = downhill s"
  "objective_repeat_precision (tally_candidate s u) = objective_repeat_precision s"
  "f_x_best_repeats (tally_candidate s u) = f_x_best_repeats s"
  "num_accepted (tally_candidate s u) = num_accepted s"
  by (simp_all add: tally_candidate_def Let_def)

lemma new_best_counters:
  "new_best (s\<lparr> k_cost := a, num_accepted := b, num_accepted_recently := d,
               f_x_best_repeats := e \<rparr>) = new_best s"
  by (simp add: new_best_def)

lemma new_best_tally_candidate: "new_best (tally_candidate s u) = new_best s"
  by (simp add: new_best_def tally_candidate_fields)

lemma accept_candidate_fields:
  "x (accept_candidate s) = x_cand s"
  "f_x (accept_candidate s) = f_x_cand s"
  "num_accepted (accept_candidate s) = num_accepted s + 1"
  "f_x_best (accept_candidate s) = (if new_best s then f_x_cand s else f_x_best s)"
  "x_best (accept_candidate s) = (if new_best s then x_cand s else x_best s)"
  by (simp_all add: accept_candidate_def Let_def new_best_counters)

lemma reject_candidate_fields:
  "x (reject_candidate s) = x s"
  "f_x (reject_candidate s) = f_x s"
  "num_accepted (reject_candidate s) = num_accepted s"
  "f_x_best (reject_candidate s) = f_x_best s"
  "x_best (reject_candidate s) = x_best s"
  "f_x_best_repeats (reject_candidate s) = f_x_best_repeats s"
  by (simp_all add: reject_candidate_def)

subsection \<open>Candidate generation and the bounds\<close>

lemma generate_loop_within_bounds:
  "generate_loop s gs = Some (x_new, gs') \<Longrightarrow> within_bounds s x_new"
  by (induction gs) (auto simp add: Let_def split: if_splits)

lemma generate_next_within_bounds:
  "generate_next s gs = Some (s', gs') \<Longrightarrow> within_bounds s' (x_cand s')"
  by (auto simp add: generate_next_def within_bounds_def split: option.splits
      dest!: generate_loop_within_bounds)

text \<open>
  C1. Every point handed to the caller lies within the ranges. This holds for \<open>x_cand\<close>
  (\<open>generate_next_within_bounds\<close>), and fails for the probe: \<open>generate_delta_parameter\<close>
  turns to \<open>x * (1 - delta_param)\<close> when \<open>x * (1 + delta_param)\<close> is out of range and
  does not look at the result again. For the best point 100 in [99.5, 100.5] the
  reanneal test asks for the objective at 99.
\<close>

theorem probe_leaves_bounds:
  "fst (reanneal_test narrow) = True
   \<and> within_bounds narrow (x_best narrow)
   \<and> x_plusdelta (snd (reanneal_test narrow)) = [Fin 99]
   \<and> \<not> within_bounds (snd (reanneal_test narrow)) (x_plusdelta (snd (reanneal_test narrow)))"
  by (simp add: narrow_def reanneal_test_def init_def Anneal_new_def Let_def vresize_def
      min_steps_to_reanneal_def generate_delta_parameter_def within_bounds_def vv_le_def
      vv_ge_def fl_gt_def fl_ge_def)

subsection \<open>The acceptance rule\<close>

lemma acceptance_check_rule:
  "acceptance_check s (u # us) = Some (s', us') \<Longrightarrow>
     us' = us \<and>
     (accepted s u \<longleftrightarrow>
        fl_ge (fl_min (Fin 1)
                 (fl_exp (fl_div (fl_neg (fl_sub (f_x_cand s) (f_x s)))
                            (fl_add (Fin (epsilon (fp s))) (mean (T_cost s)))))) (Fin u)) \<and>
     (accepted s u \<longrightarrow>
        x s' = x_cand s \<and> f_x s' = f_x_cand s \<and> num_accepted s' = num_accepted s + 1) \<and>
     (\<not> accepted s u \<longrightarrow> x s' = x s \<and> f_x s' = f_x s \<and> num_accepted s' = num_accepted s)"
  by (cases "accepted s u")
     (auto simp add: acceptance_check_def accept_candidate_fields reject_candidate_fields
        tally_candidate_fields accepted_def acceptance_probability_def eps_def)

lemma tie_fields:
  "f_x_cand tie = PInf" "f_x tie = Fin 0" "T_cost tie = [Fin 1]" "fp tie = Float64"
  "num_accepted tie = 0"
  by (simp_all add: tie_def plain_def init_def Anneal_new_def Let_def)

text \<open>
  C2. The candidate is accepted if and only if \<open>min(1, p) \<ge> u\<close>, for one number \<open>u\<close>
  drawn. \<open>Anneal::acceptance_check\<close> does so (\<open>acceptance_check_rule\<close>).
  \<open>AdaptiveAnneal::acceptance_check\<close> tests \<open>p > u\<close>: where \<open>p\<close> and the number drawn
  are both 0 it rejects the candidate that \<open>Anneal\<close> accepts.
\<close>

theorem adaptive_rejects_tie:
  "aa_probability aa_tie = Fin 0
   \<and> map_option (fst \<circ> fst) (aa_acceptance_check aa_tie [0]) = Some False
   \<and> map_option (aa_x \<circ> snd \<circ> fst) (aa_acceptance_check aa_tie [0]) = Some [Fin 5]
   \<and> acceptance_probability tie = Fin 0
   \<and> accepted tie 0
   \<and> map_option (num_accepted \<circ> fst) (acceptance_check tie [0]) = Some 1"
proof -
  have adaptive: "aa_probability aa_tie = Fin 0
      \<and> map_option (fst \<circ> fst) (aa_acceptance_check aa_tie [0]) = Some False
      \<and> map_option (aa_x \<circ> snd \<circ> fst) (aa_acceptance_check aa_tie [0]) = Some [Fin 5]"
    by (simp add: aa_tie_def aa_probability_def aa_acceptance_check_def aa_accepted_def
        Let_def mean_def vsum_def fl_sub_def fl_gt_def)
  have p: "acceptance_probability tie = Fin 0"
    by (simp add: acceptance_probability_def tie_fields mean_def vsum_def fl_sub_def
        fl_min_def eps_def)
  have acc: "accepted tie 0"
    by (simp add: accepted_def p fl_ge_def)
  have "map_option (num_accepted \<circ> fst) (acceptance_check tie [0]) = Some 1"
    by (simp add: acceptance_check_def acc accept_candidate_fields tally_candidate_fields
        tie_fields)
  with adaptive p acc show ?thesis by simp
qed

subsection \<open>The reanneal test\<close>

lemma reanneal_test_signal:
  "fst (reanneal_test s) \<longleftrightarrow>
     min_steps_to_reanneal \<le> k_r s \<and>
     (reanneal_after_steps s \<le> k_r s
      \<or> \<not> fl_ge (accepted_vs_generated s) (acc_gen_reanneal_ratio s))"
  by (auto simp add: reanneal_test_def Let_def)

text \<open>
  C4. After the grace period the test signals a reanneal exactly when the ratio of recently
  accepted to recently generated candidates is below \<open>acc_gen_reanneal_ratio\<close> or
  \<open>k_r\<close> has reached \<open>reanneal_after_steps\<close>. The code compares the threshold with
  \<open>accepted + 1 / (generated + 1)\<close>, which is no ratio: for 5 accepted of 9 generated it
  is 5.1, and with the threshold 0.7 no reanneal is signalled although 5/9 < 0.7.
\<close>

theorem reanneal_test_misses_low_ratio:
  "\<not> k_r stalled < min_steps_to_reanneal
   \<and> k_r stalled < reanneal_after_steps stalled
   \<and> real (unat (num_accepted_recently stalled)) / real (unat (num_generated_recently stalled))
       < 7 / 10
   \<and> acc_gen_reanneal_ratio stalled = Fin (7 / 10)
   \<and> accepted_vs_generated stalled = Fin (51 / 10)
   \<and> fst (reanneal_test stalled) = False"
  by (simp add: stalled_def reanneal_test_def init_def Anneal_new_def Let_def vresize_def
      min_steps_to_reanneal_def accepted_vs_generated_def of_uint_def fl_gt_def fl_ge_def)

subsection \<open>Completion of a reanneal\<close>

text \<open>
  C7. When every tangent of the estimate is zero, \<open>complete_reanneal\<close> doubles
  \<open>delta_param\<close> and returns: it stores the estimate and changes nothing else, so
  \<open>T_k\<close>, \<open>T_cost\<close>, \<open>k\<close> and \<open>k_cost\<close> are as before, and no error is raised.
\<close>

theorem zero_tangents_double_delta_param:
  assumes "estimate_tangents s \<noteq> []"
    and "\<forall>t \<in> set (estimate_tangents s). t = Fin 0"
  shows "complete_reanneal s =
           Inr (s\<lparr> tangents := estimate_tangents s,
                   delta_param := fl_mul (delta_param s) (Fin 2) \<rparr>)"
proof -
  have finite: "\<not> has_nan_or_inf (estimate_tangents s)"
    using assms(2) by (auto simp add: has_nan_or_inf_def list_ex_iff)
  have zero: "has_zero (estimate_tangents s)"
    using assms by (cases "estimate_tangents s") (auto simp add: has_zero_def fl_eq_def)
  show ?thesis
    using finite zero by (simp add: complete_reanneal_def Let_def)
qed

lemma flat_probe_fields:
  "x flat_probe = [Fin 5]" "x_plusdelta flat_probe = [Fin (101 / 20)]"
  "f_x flat_probe = Fin 3" "f_x_plusdelta flat_probe = Fin 3" "fp flat_probe = Float64"
  "delta_param flat_probe = Fin (1 / 100)"
  by (simp_all add: flat_probe_def plain_def init_def Anneal_new_def Let_def vresize_def)

theorem zero_tangents_double_delta_param_witness:
  "estimate_tangents flat_probe = [Fin 0]
   \<and> complete_reanneal flat_probe =
       Inr (flat_probe\<lparr> tangents := [Fin 0], delta_param := Fin (1 / 50) \<rparr>)"
proof -
  have est: "estimate_tangents flat_probe = [Fin 0]"
    by (simp add: estimate_tangents_def flat_probe_fields fl_sub_def eps_def)
  have dbl: "fl_mul (delta_param flat_probe) (Fin 2) = Fin (1 / 50)"
    by (simp add: flat_probe_fields)
  note doubled = zero_tangents_double_delta_param [of flat_probe, unfolded est dbl]
  have "complete_reanneal flat_probe =
       Inr (flat_probe\<lparr> tangents := [Fin 0], delta_param := Fin (1 / 50) \<rparr>)"
    by (rule doubled) simp_all
  with est show ?thesis by (rule conjI)
qed

subsection \<open>After \<open>init\<close>\<close>



subsection \<open>The best objective\<close>

lemma f_x_best_parts:
  "f_x_best (cooling_schedule s) = f_x_best s"
  "f_x_best (tally_candidate s u) = f_x_best s"
  "f_x_best (reject_candidate s) = f_x_best s"
  "f_x_best (count_step s) = f_x_best s"
  "f_x_best (snd (reanneal_test s)) = f_x_best s"
  "f_x_best (next_state s) = f_x_best s"
  by (simp_all add: cooling_schedule_def tally_candidate_def reject_candidate_def
      count_step_def reanneal_test_def next_state_eq Let_def)

lemma f_x_best_reanneal_cost: "reanneal_cost s = Inr s' \<Longrightarrow> f_x_best s' = f_x_best s"
  by (auto simp add: reanneal_cost_def Let_def split: option.splits)

lemma f_x_best_complete_reanneal:
  "complete_reanneal s = Inr s' \<Longrightarrow> f_x_best s' = f_x_best s"
  by (auto simp add: complete_reanneal_def Let_def split: if_splits option.splits
      dest!: f_x_best_reanneal_cost)

lemma new_best_better:
  assumes "new_best s" and "fl_le (Fin 0) (objective_repeat_precision s)"
  shows "if downhill s then fl_lt (f_x_cand s) (f_x_best s)
         else fl_lt (f_x_best s) (f_x_cand s)"
  using assms
  by (cases "f_x_cand s"; cases "f_x_best s"; cases "objective_repeat_precision s")
     (auto simp add: new_best_def fl_sub_def fl_gt_def split: if_splits)

lemma kept_trans: "kept s s1 \<Longrightarrow> kept s1 s2 \<Longrightarrow> kept s s2"
  unfolding kept_def no_worse_def
  by (auto simp add: same_setup_def split: if_splits dest: fl_lt_trans)

lemma keptI: "same_setup s s' \<Longrightarrow> f_x_best s' = f_x_best s \<Longrightarrow> kept s s'"
  by (simp add: kept_def no_worse_def)

lemma kept_updates:
  "kept s (s\<lparr> steps := w \<rparr>)"
  "kept s (s\<lparr> state := st \<rparr>)"
  "kept s (s\<lparr> reason_for_exit := r \<rparr>)"
  "kept s (s\<lparr> f_x_cand := v \<rparr>)"
  "kept s (s\<lparr> f_x_plusdelta := v \<rparr>)"
  by (simp_all add: keptI same_setup_updates)

lemma kept_acceptance_check:
  assumes "acceptance_check s us = Some (s', us')"
  shows "kept s s'"
proof -
  from assms obtain u where
    s': "s' = (if accepted s u then accept_candidate (tally_candidate s u)
               else reject_candidate (tally_candidate s u))"
    by (rule acceptance_check_Some)
  have best: "f_x_best s' = (if accepted s u \<and> new_best s then f_x_cand s else f_x_best s)"
    by (simp add: s' accept_candidate_fields reject_candidate_fields tally_candidate_fields
        new_best_tally_candidate)
  have "no_worse s s'" if "fl_le (Fin 0) (objective_repeat_precision s)"
    using new_best_better [OF _ that] by (auto simp add: no_worse_def best)
  then show ?thesis
    using same_setup_acceptance_check [OF assms] by (simp add: kept_def)
qed

lemma kept_generate_next: "generate_next s gs = Some (s', gs') \<Longrightarrow> kept s s'"
  by (rule keptI, erule same_setup_generate_next, erule generate_next_Some) simp

lemma kept_advance: "advance s us gs = Inr (s', us', gs') \<Longrightarrow> kept (cooling_schedule s) s'"
  by (rule advance_relation [where R = kept])
     (blast intro: kept_trans kept_acceptance_check kept_generate_next
        keptI same_setup_count_step same_setup_next_state f_x_best_parts)+

lemma kept_step: "step s us gs = Inr (s', us', gs') \<Longrightarrow> kept s s'"
  by (rule step_relation [where R = kept])
     (blast intro: kept_trans kept_updates keptI same_setup_cooling_schedule f_x_best_parts
        same_setup_complete_reanneal f_x_best_complete_reanneal kept_advance)+

lemma kept_reaches: "reaches s s' \<Longrightarrow> kept s s'"
proof (induction rule: reaches.induct)
  case (here s)
  show ?case by (simp add: keptI same_setup_refl)
next
  case (objective s s1 v)
  then show ?case using kept_updates(4) kept_trans by blast
next
  case (probe_objective s s1 v)
  then show ?case using kept_updates(5) kept_trans by blast
next
  case (stepped s s1 us gs s2 us' gs')
  then show ?case using kept_step kept_trans by blast
qed

text \<open>
  C3, as the code has it. With a tolerance \<open>objective_repeat_precision\<close> that is not
  negative, as its default \<open>eps\<close> is, \<open>f_x_best\<close> never gets worse across a run: from
  any object \<open>s\<close>, whatever calls of \<open>step\<close> and whatever objectives stored by the
  caller lead to \<open>s'\<close>, the best objective of \<open>s'\<close> is that of \<open>s\<close> or a strictly
  lower one when descending, a strictly higher one when ascending.
\<close>

theorem f_x_best_never_regresses:
  assumes "reaches s s'" and "fl_le (Fin 0) (objective_repeat_precision s)"
  shows "(downhill s \<longrightarrow> f_x_best s' = f_x_best s \<or> fl_lt (f_x_best s') (f_x_best s))
       \<and> (\<not> downhill s \<longrightarrow> f_x_best s' = f_x_best s \<or> fl_lt (f_x_best s) (f_x_best s'))"
  using kept_reaches [OF assms(1)] assms(2) by (auto simp add: kept_def no_worse_def)

subsection \<open>Temperatures of a run\<close>

lemma configured_fresh:
  "configured a \<Longrightarrow>
     T_0 a = [] \<and> T_k a = [] \<and> k_r a = 0 \<and> k a = 1 \<and> k_cost a = 0 \<and> num_accepted a = 0
     \<and> f_x_best_repeats a = 0 \<and> state a = NeedToInit \<and> length (x a) = D a
     \<and> length (x_cand a) = D a"
  by (induction rule: configured.induct) (simp_all add: Anneal_new_def Let_def)

lemma cooled_replicate:
  "cooled e (replicate d a) (replicate d b) w j =
     replicate d (fl_max (fl_mul a (fl_exp (fl_mul (fl_neg b)
                     (fl_pow (of_uint w) (fl_div (Fin 1) (Fin (real j))))))) e)"
  by (simp add: cooled_def max_elementwise_def zip_replicate)

lemma level_temperatures_init: "configured a \<Longrightarrow> level_temperatures (init a)"
  by (drule configured_fresh)
     (simp add: level_temperatures_def init_def Let_def vresize_def zip_replicate)

lemma T_k_parts:
  "T_k (tally_candidate s u) = T_k s"
  "T_k (accept_candidate s) = T_k s"
  "T_k (reject_candidate s) = T_k s"
  "T_k (count_step s) = T_k s"
  "T_k (next_state s) = T_k s"
  "T_k (cooling_schedule s) = cooled (eps s) (T_0 s) (c s) (k s) (D s)"
  by (simp_all add: tally_candidate_def accept_candidate_def reject_candidate_def
      count_step_def reanneal_test_def next_state_eq cooling_schedule_def Let_def)

lemma T_k_acceptance_check: "acceptance_check s us = Some (s', us') \<Longrightarrow> T_k s' = T_k s"
  by (erule acceptance_check_Some) (simp add: T_k_parts)

lemma T_k_generate_next: "generate_next s gs = Some (s', gs') \<Longrightarrow> T_k s' = T_k s"
  by (erule generate_next_Some) simp

lemma T_k_advance:
  "advance s us gs = Inr (s', us', gs') \<Longrightarrow> T_k s' = cooled (eps s) (T_0 s) (c s) (k s) (D s)"
proof -
  assume "advance s us gs = Inr (s', us', gs')"
  then obtain s1 s2 where
    "acceptance_check (cooling_schedule s) us = Some (s1, us')"
    "generate_next s1 gs = Some (s2, gs')"
    "s' = next_state (count_step s2)"
    by (rule advance_Some)
  then show ?thesis
    using T_k_acceptance_check T_k_generate_next by (simp add: T_k_parts)
qed

lemma level_temperatures_step:
  assumes "level_temperatures s" and "step s us gs = Inr (s', us', gs')"
  shows "level_temperatures s'"
proof -
  from assms(1) obtain a b v where
    lv: "T_0 s = replicate (D s) a" "c s = replicate (D s) b" "T_k s = replicate (D s) v"
    by (auto simp add: level_temperatures_def)
  have same: "D s' = D s" "T_0 s' = T_0 s" "c s' = c s"
    using same_setup_step [OF assms(2)] by (simp_all add: same_setup_def)
  have cooled_case: "\<exists>v'. T_k s' = replicate (D s) v'"
    if "advance y us gs = Inr (s', us', gs')" and "same_setup s y" for y
  proof -
    have "T_k s' = cooled (eps y) (replicate (D s) a) (replicate (D s) b) (k y) (D s)"
      using T_k_advance [OF that(1)] that(2) lv by (simp add: same_setup_def)
    then show ?thesis
      by (simp add: cooled_replicate)
  qed
  have "\<exists>v'. T_k s' = replicate (D s) v'"
    using assms(2)
  proof (cases rule: step_cases)
    case (stopped r)
    then show ?thesis using lv by simp
  next
    case plain_step
    then show ?thesis using cooled_case same_setup_updates(1) by blast
  next
    case (reannealed s2)
    have "same_setup s (s2\<lparr> state := NeedToStep \<rparr>)"
      using same_setup_complete_reanneal [OF reannealed(3)] same_setup_updates(1,2)
        same_setup_trans by blast
    then show ?thesis using cooled_case reannealed(4) by blast
  qed
  then show ?thesis
    using lv same by (simp add: level_temperatures_def)
qed

lemma level_temperatures_reaches:
  "reaches s s' \<Longrightarrow> level_temperatures s \<Longrightarrow> level_temperatures s'"
proof (induction rule: reaches.induct)
  case (stepped s s1 us gs s2 us' gs')
  then show ?case using level_temperatures_step by blast
qed (simp_all add: level_temperatures_def)

lemma reachable_level_temperatures: "reachable s \<Longrightarrow> level_temperatures s"
  unfolding reachable_def
  using level_temperatures_init level_temperatures_reaches by blast

text \<open>
  C5. When the first stop condition does not hold and the smallest of the temperatures
  \<open>T_k\<close> is at the floor \<open>eps\<close>, the next call of \<open>step\<close> ends in \<open>ReadyToStop\<close>
  with the reason \<open>T_k_less_than_epsilon\<close>. \<open>stop_check\<close> looks at \<open>T_k[0]\<close>
  only; in a run all elements of \<open>T_k\<close> are equal whenever \<open>step\<close> is called, because
  each step that goes on recomputes \<open>T_k\<close> from \<open>T_0\<close>, \<open>c\<close> and \<open>k\<close>.
\<close>

theorem floor_temperature_stops:
  assumes "reachable s"
    and "\<not> (exit_at_T_f s \<and> vv_lt (T_k s) (T_f s))"
    and "T_k s \<noteq> []"
    and "fl_le (vmin (T_k s)) (eps s)"
  shows "step s us gs =
           Inr (s\<lparr> steps := steps s + 1, reason_for_exit := T_k_less_than_epsilon,
                   state := ReadyToStop \<rparr>, us, gs)"
proof -
  from reachable_level_temperatures [OF assms(1)] obtain v where
    lv: "T_k s = replicate (D s) v"
    by (auto simp add: level_temperatures_def)
  with assms(3) have d: "0 < D s"
    by (cases "D s") simp_all
  then have "vmin (T_k s) = v"
    by (simp add: lv vmin_replicate)
  with assms(4) have floor: "fl_le v (eps s)"
    by simp
  from d obtain j where "D s = Suc j"
    by (cases "D s") simp_all
  then have hd: "T_k s = v # replicate j v"
    by (simp add: lv)
  have "stop_check (s\<lparr> steps := steps s + 1 \<rparr>) =
          Inr (True, s\<lparr> steps := steps s + 1, reason_for_exit := T_k_less_than_epsilon \<rparr>)"
    using assms(2) floor by (auto simp add: stop_check_def hd eps_def)
  then show ?thesis
    by (simp add: step_def)
qed

subsection \<open>A step on which the candidate is accepted\<close>

lemma accepted_zero: "accepted s 0"
proof -
  have "fl_le (Fin 0) (fl_min (Fin 1) (fl_exp z))" for z
    by (cases z) (simp_all add: fl_min_def)
  then show ?thesis
    by (simp add: accepted_def acceptance_probability_def fl_ge_def)
qed

lemma next_state_early:
  "k_r s < min_steps_to_reanneal \<Longrightarrow> next_state s = s\<lparr> state := NeedToCompute \<rparr>"
  by (simp add: next_state_eq reanneal_test_def)

lemma generate_loop_cong:
  "x s = x s' \<Longrightarrow> T_k s = T_k s' \<Longrightarrow> range_min s = range_min s' \<Longrightarrow> range_max s = range_max s'
   \<Longrightarrow> generate_loop s gs = generate_loop s' gs"
  by (induction gs) (simp_all add: offset_point_def within_bounds_def Let_def)

lemma accepted_tally_fields:
  "f_x_best_repeats (accept_candidate s) =
     (if new_best s then 0
      else f_x_best_repeats s +
           (if fl_le (fl_abs (fl_sub (f_x_cand s) (f_x_best s))) (objective_repeat_precision s)
            then 1 else 0))"
  "T_cost (accept_candidate s) = T_cost s"
  "T_cost_0 (accept_candidate s) = T_cost_0 s"
  "k (accept_candidate s) = k s"
  "k_r (accept_candidate s) = k_r s"
  "k_cost (accept_candidate s) = k_cost s + 1"
  "f_x_cand (accept_candidate s) = f_x_cand s"
  "steps (accept_candidate s) = steps s"
  "T_cost (tally_candidate s u) = T_cost s"
  "T_cost_0 (tally_candidate s u) = T_cost_0 s"
  "k (tally_candidate s u) = k s"
  "k_r (tally_candidate s u) = k_r s"
  "k_cost (tally_candidate s u) = k_cost s"
  "steps (tally_candidate s u) = steps s"
  by (simp_all add: accept_candidate_def tally_candidate_def Let_def new_best_counters)

lemma cooling_schedule_fields:
  "f_x_cand (cooling_schedule s) = f_x_cand s"
  "f_x (cooling_schedule s) = f_x s"
  "x_cand (cooling_schedule s) = x_cand s"
  "x (cooling_schedule s) = x s"
  "x_best (cooling_schedule s) = x_best s"
  "f_x_best_repeats (cooling_schedule s) = f_x_best_repeats s"
  "num_accepted (cooling_schedule s) = num_accepted s"
  "objective_repeat_precision (cooling_schedule s) = objective_repeat_precision s"
  "downhill (cooling_schedule s) = downhill s"
  "k (cooling_schedule s) = k s"
  "k_r (cooling_schedule s) = k_r s"
  "k_cost (cooling_schedule s) = k_cost s"
  "T_cost_0 (cooling_schedule s) = T_cost_0 s"
  "steps (cooling_schedule s) = steps s"
  "range_min (cooling_schedule s) = range_min s"
  "range_max (cooling_schedule s) = range_max s"
  "T_cost (cooling_schedule s) = cooled (eps s) (T_cost_0 s) (c_cost s) (k_cost s) (D s)"
  by (simp_all add: cooling_schedule_def)

lemma new_best_cooling_schedule: "new_best (cooling_schedule s) = new_best s"
  by (simp add: new_best_def cooling_schedule_fields f_x_best_parts)

lemma new_best_steps: "new_best (s\<lparr> steps := w \<rparr>) = new_best s"
  by (simp add: new_best_def)

text \<open>
  The object after a step that does not stop, does not complete a reanneal, accepts the
  candidate and is not followed by a reanneal.
\<close>

lemma accepting_step:
  assumes cont: "stop_check (s\<lparr> steps := steps s + 1 \<rparr>) = Inr (False, s\<lparr> steps := steps s + 1 \<rparr>)"
    and st: "state s \<noteq> NeedToComputeSet"
    and acc: "accepted (cooling_schedule (s\<lparr> steps := steps s + 1 \<rparr>)) u"
    and gen: "generate_loop (s\<lparr> x := x_cand s, T_k := cooled (eps s) (T_0 s) (c s) (k s) (D s) \<rparr>) gs
              = Some (x_new, gs')"
    and early: "k_r s + 1 < min_steps_to_reanneal"
  shows "\<exists>s'. step s (u # us) gs = Inr (s', us, gs')
    \<and> state s' = NeedToCompute
    \<and> num_accepted s' = num_accepted s + 1
    \<and> f_x s' = f_x_cand s \<and> f_x_cand s' = f_x_cand s
    \<and> x s' = x_cand s \<and> x_cand s' = x_new
    \<and> f_x_best s' = (if new_best s then f_x_cand s else f_x_best s)
    \<and> f_x_best_repeats s' =
        (if new_best s then 0
         else f_x_best_repeats s +
           (if fl_le (fl_abs (fl_sub (f_x_cand s) (f_x_best s))) (objective_repeat_precision s)
            then 1 else 0))
    \<and> T_k s' = cooled (eps s) (T_0 s) (c s) (k s) (D s)
    \<and> T_cost s' = cooled (eps s) (T_cost_0 s) (c_cost s) (k_cost s) (D s)
    \<and> T_cost_0 s' = T_cost_0 s
    \<and> k s' = k s + 1 \<and> k_r s' = k_r s + 1 \<and> k_cost s' = k_cost s + 1
    \<and> steps s' = steps s + 1
    \<and> same_setup s s'"
proof -
  let ?s0 = "cooling_schedule (s\<lparr> steps := steps s + 1 \<rparr>)"
  let ?a = "accept_candidate (tally_candidate ?s0 u)"
  let ?g = "?a\<lparr> num_generated := num_generated ?a + 1,
                 num_generated_recently := num_generated_recently ?a + 1,
                 x_cand := x_new \<rparr>"
  let ?s' = "(count_step ?g)\<lparr> state := NeedToCompute \<rparr>"
  have a: "acceptance_check ?s0 (u # us) = Some (?a, us)"
    using acc by (simp add: acceptance_check_Cons)
  have "generate_loop ?a gs
        = generate_loop (s\<lparr> x := x_cand s, T_k := cooled (eps s) (T_0 s) (c s) (k s) (D s) \<rparr>) gs"
    by (rule generate_loop_cong)
       (simp_all add: accept_candidate_fields tally_candidate_fields cooling_schedule_fields
          T_k_parts eps_def same_setup_accept_candidate [unfolded same_setup_def]
          same_setup_tally_candidate [unfolded same_setup_def])
  then have g: "generate_next ?a gs = Some (?g, gs')"
    using gen by (simp add: generate_next_def)
  have kr: "k_r (count_step ?g) < min_steps_to_reanneal"
    using early by (simp add: count_step_def accepted_tally_fields cooling_schedule_fields)
  have "advance (s\<lparr> steps := steps s + 1 \<rparr>) (u # us) gs = Inr (?s', us, gs')"
    by (simp add: advance_def a g next_state_early [OF kr])
  then have run: "step s (u # us) gs = Inr (?s', us, gs')"
    using cont st by (simp add: step_def)
  have fields: "state ?s' = NeedToCompute
    \<and> num_accepted ?s' = num_accepted s + 1
    \<and> f_x ?s' = f_x_cand s \<and> f_x_cand ?s' = f_x_cand s
    \<and> x ?s' = x_cand s \<and> x_cand ?s' = x_new
    \<and> f_x_best ?s' = (if new_best s then f_x_cand s else f_x_best s)
    \<and> f_x_best_repeats ?s' =
        (if new_best s then 0
         else f_x_best_repeats s +
           (if fl_le (fl_abs (fl_sub (f_x_cand s) (f_x_best s))) (objective_repeat_precision s)
            then 1 else 0))
    \<and> T_k ?s' = cooled (eps s) (T_0 s) (c s) (k s) (D s)
    \<and> T_cost ?s' = cooled (eps s) (T_cost_0 s) (c_cost s) (k_cost s) (D s)
    \<and> T_cost_0 ?s' = T_cost_0 s
    \<and> k ?s' = k s + 1 \<and> k_r ?s' = k_r s + 1 \<and> k_cost ?s' = k_cost s + 1
    \<and> steps ?s' = steps s + 1"
    by (simp add: count_step_def accept_candidate_fields accepted_tally_fields
        tally_candidate_fields cooling_schedule_fields T_k_parts f_x_best_parts
        new_best_tally_candidate new_best_cooling_schedule new_best_steps eps_def)
  show ?thesis
    using run fields same_setup_step [OF run] by blast
qed

subsection \<open>The default settings in numbers\<close>

lemma ln_100000_bounds: "1 \<le> ln (100000::real)" "ln (100000::real) \<le> 45"
proof -
  have "exp (1::real) \<le> 3" by (rule exp_le)
  then have "exp (1::real) \<le> 100000" by simp
  then show "1 \<le> ln (100000::real)" by (simp add: ln_ge_iff)
  have "ln (100000::real) = ln (10 ^ 5)" by simp
  also have "\<dots> = 5 * ln 10" by (simp only: ln_realpow of_nat_numeral)
  also have "\<dots> \<le> 5 * (10 - 1)" using ln_le_minus_one [of "10::real"] by simp
  finally show "ln (100000::real) \<le> 45" by simp
qed

lemma c_default_bounds: "1 / 100 \<le> c_default" "c_default \<le> 9 / 20"
  using ln_100000_bounds by (simp_all add: c_default_def)

lemma exp_minus_ge_third: "0 \<le> t \<Longrightarrow> t \<le> 1 \<Longrightarrow> 1 / 3 \<le> exp (- (t::real))"
proof -
  assume a: "0 \<le> t" "t \<le> 1"
  have "exp t \<le> exp 1" using a by simp
  also have "\<dots> \<le> 3" by (rule exp_le)
  finally have "exp t \<le> 3" .
  then have "1 / 3 \<le> 1 / exp t" by (simp add: field_simps)
  then show ?thesis by (simp add: exp_minus inverse_eq_divide)
qed

lemma stop_check_warm:
  assumes "T_k s = Fin t # ts" and "T_cost s = Fin tc # tcs" and "\<not> exit_at_T_f s"
    and "epsilon (fp s) < t" and "epsilon (fp s) < tc"
  shows "stop_check s =
           (if f_x_best_repeat_max s \<le> f_x_best_repeats s
            then Inr (True, s\<lparr> reason_for_exit := f_x_best_repeated \<rparr>) else Inr (False, s))"
  using assms by (simp add: stop_check_def eps_def)

lemma plain_fields:
  "T_k plain = [Fin 1]" "T_0 plain = [Fin 1]" "c plain = [Fin c_default]"
  "c_cost plain = [Fin c_default]" "T_cost plain = [Fin c_default]"
  "T_cost_0 plain = [Fin c_default]" "D plain = 1" "fp plain = Float64"
  "exit_at_T_f plain = False" "f_x_best_repeat_max plain = 10" "f_x_best_repeats plain = 0"
  "state plain = NeedToCompute" "x plain = [Fin 5]" "x_cand plain = [Fin 5]"
  "x_best plain = [Fin 5]" "f_x plain = Fin (fmax Float64)" "f_x_best plain = Fin (fmax Float64)"
  "downhill plain = True" "objective_repeat_precision plain = Fin (epsilon Float64)"
  "range_min plain = [Fin 0]" "range_max plain = [Fin 10]" "k plain = 1" "k_r plain = 0"
  "k_cost plain = 0" "num_accepted plain = 0" "steps plain = 0" "delta_param plain = Fin (1 / 100)"
  "enable_reanneal plain = True" "reanneal_after_steps plain = 100"
  by (simp_all add: plain_def init_def Anneal_new_def Let_def vresize_def c_default_def
      ln_div exp_minus inverse_eq_divide del: fmax.simps epsilon.simps)

subsection \<open>A probe objective that is not finite\<close>

text \<open>
  C6, as the code has it. \<open>step\<close> checks the stop conditions before it completes a
  reanneal. For an object that waits for the objective of a probe and whose tangent
  estimate has a NaN or an infinity: when \<open>stop_check\<close> finds no stop condition the
  call throws, and the object then differs from the one before the call in \<open>steps\<close> and
  \<open>tangents\<close> only, so \<open>T_k\<close> and \<open>T_cost\<close> are not updated; when \<open>stop_check\<close>
  finds a stop condition the call returns, the state is \<open>ReadyToStop\<close>, the reason is
  recorded, and the reanneal is not completed.
\<close>

theorem nonfinite_tangents_raise:
  assumes "state s = NeedToComputeSet"
    and "has_nan_or_inf (estimate_tangents s)"
    and "stop_check s = Inr (stop, s')"
  shows "step s us gs =
           (if stop
            then Inr (s\<lparr> steps := steps s + 1, reason_for_exit := reason_for_exit s',
                         state := ReadyToStop \<rparr>, us, gs)
            else Inl (NaN_or_inf_in_tangents,
                      s\<lparr> steps := steps s + 1, tangents := estimate_tangents s \<rparr>))"
proof (cases stop)
  case True
  define r where "r = reason_for_exit s'"
  have "s' = s\<lparr> reason_for_exit := r \<rparr>"
    unfolding r_def using assms(3) by (rule stop_check_result)
  then have "stop_check (s\<lparr> steps := steps s + 1 \<rparr>)
      = Inr (True, s\<lparr> steps := steps s + 1, reason_for_exit := r \<rparr>)"
    using True assms(3) by (simp add: stop_check_steps)
  then show ?thesis
    using True by (simp add: step_def r_def)
next
  case False
  let ?s0 = "s\<lparr> steps := steps s + 1 \<rparr>"
  have "s' = s"
    using assms(3) False stop_check_continue [of s s'] by simp
  then have cont: "stop_check ?s0 = Inr (False, ?s0)"
    using False assms(3) by (simp add: stop_check_steps)
  have est: "estimate_tangents ?s0 = estimate_tangents s"
    by (simp add: estimate_tangents_def eps_def)
  have "complete_reanneal ?s0 = Inl (NaN_or_inf_in_tangents, ?s0\<lparr> tangents := estimate_tangents s \<rparr>)"
    using assms(2) by (simp add: complete_reanneal_def est Let_def)
  then show ?thesis
    using False cont assms(1) by (simp add: step_def)
qed

lemma nan_probe_fields:
  "state nan_probe = NeedToComputeSet" "T_k nan_probe = [Fin 1]"
  "T_cost nan_probe = [Fin c_default]" "exit_at_T_f nan_probe = False"
  "fp nan_probe = Float64" "f_x_best_repeat_max nan_probe = 10" "f_x_best_repeats nan_probe = 0"
  "x nan_probe = [Fin 5]" "x_plusdelta nan_probe = [Fin (101 / 20)]"
  "f_x nan_probe = Fin 3" "f_x_plusdelta nan_probe = NaN"
  by (simp_all add: nan_probe_def plain_fields)

lemma nan_probe_tangents: "estimate_tangents nan_probe = [NaN]"
  by (simp add: estimate_tangents_def nan_probe_fields fl_sub_def eps_def)

lemma lowest_probe_fields:
  "state lowest_probe = NeedToComputeSet" "T_k lowest_probe = [Fin 1]"
  "T_cost lowest_probe = [Fin c_default]" "exit_at_T_f lowest_probe = False"
  "fp lowest_probe = Float64" "f_x_best_repeat_max lowest_probe = 10"
  "f_x_best_repeats lowest_probe = 0" "downhill lowest_probe = False"
  "x lowest_probe = [Fin 5]" "x_plusdelta lowest_probe = [Fin (101 / 20)]"
  "f_x lowest_probe = Fin (- fmax Float64)" "f_x_plusdelta lowest_probe = Fin 1"
  by (simp_all add: lowest_probe_def init_def Anneal_new_def Let_def vresize_def c_default_def
      ln_div exp_minus inverse_eq_divide del: fmax.simps epsilon.simps)

text \<open>
  The objectives are finite and the probe is away from \<open>x\<close>, yet the quotient
  \<open>(1 + max) / (0.05 + eps)\<close> is beyond the largest value of \<open>T\<close>.
\<close>

lemma lowest_probe_tangents: "estimate_tangents lowest_probe = [PInf]"
  by (simp add: estimate_tangents_def lowest_probe_fields fl_sub_def eps_def)

theorem nonfinite_tangents_raise_witness:
  "state nan_probe = NeedToComputeSet
   \<and> has_nan_or_inf (estimate_tangents nan_probe)
   \<and> stop_check nan_probe = Inr (False, nan_probe)
   \<and> raised (step nan_probe [] []) = Some NaN_or_inf_in_tangents
   \<and> T_k (after (step nan_probe [] [])) = T_k nan_probe
   \<and> T_cost (after (step nan_probe [] [])) = T_cost nan_probe
   \<and> state lowest_probe = NeedToComputeSet
   \<and> is_finite (f_x lowest_probe) \<and> is_finite (f_x_plusdelta lowest_probe)
   \<and> estimate_tangents lowest_probe = [PInf]
   \<and> stop_check lowest_probe = Inr (False, lowest_probe)
   \<and> raised (step lowest_probe [] []) = Some NaN_or_inf_in_tangents
   \<and> T_k (after (step lowest_probe [] [])) = T_k lowest_probe
   \<and> T_cost (after (step lowest_probe [] [])) = T_cost lowest_probe
   \<and> state nan_probe_at_limit = NeedToComputeSet
   \<and> has_nan_or_inf (estimate_tangents nan_probe_at_limit)
   \<and> stop_check nan_probe_at_limit
       = Inr (True, nan_probe_at_limit\<lparr> reason_for_exit := f_x_best_repeated \<rparr>)
   \<and> raised (step nan_probe_at_limit [] []) = None
   \<and> state (after (step nan_probe_at_limit [] [])) = ReadyToStop
   \<and> tangents (after (step nan_probe_at_limit [] [])) = tangents nan_probe_at_limit"
proof -
  have cont: "stop_check nan_probe = Inr (False, nan_probe)"
    using c_default_bounds(1)
    by (simp add: stop_check_warm [where t = 1 and tc = c_default] nan_probe_fields)
  have bad: "has_nan_or_inf (estimate_tangents nan_probe)"
    by (simp add: nan_probe_tangents has_nan_or_inf_def)
  have "step nan_probe [] [] =
          Inl (NaN_or_inf_in_tangents,
               nan_probe\<lparr> steps := steps nan_probe + 1, tangents := estimate_tangents nan_probe \<rparr>)"
    using nonfinite_tangents_raise [of nan_probe False nan_probe "[]" "[]"] cont bad
    by (simp add: nan_probe_fields)
  then have 1: "raised (step nan_probe [] []) = Some NaN_or_inf_in_tangents
      \<and> T_k (after (step nan_probe [] [])) = T_k nan_probe
      \<and> T_cost (after (step nan_probe [] [])) = T_cost nan_probe"
    by (simp add: raised_def after_def)
  have cont': "stop_check lowest_probe = Inr (False, lowest_probe)"
    using c_default_bounds(1)
    by (simp add: stop_check_warm [where t = 1 and tc = c_default] lowest_probe_fields)
  have bad': "has_nan_or_inf (estimate_tangents lowest_probe)"
    by (simp add: lowest_probe_tangents has_nan_or_inf_def)
  have "step lowest_probe [] [] =
          Inl (NaN_or_inf_in_tangents,
               lowest_probe\<lparr> steps := steps lowest_probe + 1,
                             tangents := estimate_tangents lowest_probe \<rparr>)"
    using nonfinite_tangents_raise [of lowest_probe False lowest_probe "[]" "[]"] cont' bad'
    by (simp add: lowest_probe_fields)
  then have 2: "raised (step lowest_probe [] []) = Some NaN_or_inf_in_tangents
      \<and> T_k (after (step lowest_probe [] [])) = T_k lowest_probe
      \<and> T_cost (after (step lowest_probe [] [])) = T_cost lowest_probe"
    by (simp add: raised_def after_def)
  have st'': "state nan_probe_at_limit = NeedToComputeSet"
    by (simp add: nan_probe_at_limit_def nan_probe_fields)
  have "estimate_tangents nan_probe_at_limit = estimate_tangents nan_probe"
    by (simp add: estimate_tangents_def nan_probe_at_limit_def eps_def)
  then have bad'': "has_nan_or_inf (estimate_tangents nan_probe_at_limit)"
    using bad by simp
  have stop'': "stop_check nan_probe_at_limit
      = Inr (True, nan_probe_at_limit\<lparr> reason_for_exit := f_x_best_repeated \<rparr>)"
    using c_default_bounds(1)
    by (simp add: stop_check_warm [where t = 1 and tc = c_default] nan_probe_at_limit_def
        nan_probe_fields)
  have "step nan_probe_at_limit [] [] =
          Inr (nan_probe_at_limit\<lparr> steps := steps nan_probe_at_limit + 1,
                 reason_for_exit := f_x_best_repeated, state := ReadyToStop \<rparr>, [], [])"
    using nonfinite_tangents_raise [OF st'' bad'' stop'', of "[]" "[]"] by simp
  then have 3: "raised (step nan_probe_at_limit [] []) = None
      \<and> state (after (step nan_probe_at_limit [] [])) = ReadyToStop
      \<and> tangents (after (step nan_probe_at_limit [] [])) = tangents nan_probe_at_limit"
    by (simp add: raised_def after_def)
  show ?thesis
    using cont bad 1 cont' 2 st'' bad'' stop'' 3
    by (simp add: nan_probe_fields lowest_probe_fields lowest_probe_tangents)
qed

text \<open>
  The specification has the call throw whenever the estimate is not finite. With the best
  objective repeated \<open>f_x_best_repeat_max\<close> times the stop check comes first: the call
  returns, the state is \<open>ReadyToStop\<close>, and the NaN is never looked at.
\<close>

theorem stop_check_precedes_reanneal:
  "state nan_probe_at_limit = NeedToComputeSet
   \<and> has_nan_or_inf (estimate_tangents nan_probe_at_limit)
   \<and> raised (step nan_probe_at_limit [] []) = None
   \<and> state (after (step nan_probe_at_limit [] [])) = ReadyToStop
   \<and> reason_for_exit (after (step nan_probe_at_limit [] [])) = f_x_best_repeated"
proof -
  let ?s0 = "nan_probe_at_limit\<lparr> steps := steps nan_probe_at_limit + 1 \<rparr>"
  have est: "estimate_tangents nan_probe_at_limit = estimate_tangents nan_probe"
    by (simp add: estimate_tangents_def nan_probe_at_limit_def eps_def)
  have "stop_check ?s0 = Inr (True, ?s0\<lparr> reason_for_exit := f_x_best_repeated \<rparr>)"
    using c_default_bounds(1)
    by (simp add: stop_check_warm [where t = 1 and tc = c_default] nan_probe_at_limit_def
        nan_probe_fields)
  then have "step nan_probe_at_limit [] [] =
      Inr (?s0\<lparr> reason_for_exit := f_x_best_repeated, state := ReadyToStop \<rparr>, [], [])"
    by (simp add: step_def)
  then have "raised (step nan_probe_at_limit [] []) = None
      \<and> state (after (step nan_probe_at_limit [] [])) = ReadyToStop
      \<and> reason_for_exit (after (step nan_probe_at_limit [] [])) = f_x_best_repeated"
    by (simp add: raised_def after_def)
  moreover have "has_nan_or_inf (estimate_tangents nan_probe_at_limit)"
    by (simp add: est nan_probe_tangents has_nan_or_inf_def)
  moreover have "state nan_probe_at_limit = NeedToComputeSet"
    by (simp add: nan_probe_at_limit_def nan_probe_fields)
  ultimately show ?thesis
    by simp
qed

subsection \<open>Steps before the first reanneal\<close>






lemma accepted_equal_objectives:
  assumes "f_x_cand s = Fin v" and "f_x s = Fin v" and "u \<le> 1"
  shows "accepted s u"
proof -
  have "fl_min (Fin 1) (fl_exp (fl_div (Fin 0) z)) = Fin 1" for z
    by (cases z) (simp_all add: fl_min_def inf_times_def)
  then show ?thesis
    using assms by (simp add: accepted_def acceptance_probability_def fl_sub_def fl_ge_def)
qed



lemma client_NeedToCompute:
  "state s = NeedToCompute \<Longrightarrow> client f s = s\<lparr> f_x_cand := f (x_cand s) \<rparr>"
  by (simp add: client_def)


subsection \<open>A constant objective and \<open>f_x_best_repeat_max = 1\<close>\<close>


lemma stop_check_False_nonempty:
  "stop_check s = Inr (False, s') \<Longrightarrow> T_k s \<noteq> [] \<and> T_cost s \<noteq> []"
  by (auto simp add: stop_check_def split: if_splits list.splits)

















subsection \<open>One dimension in numbers\<close>

lemma pow_step_count: "fl_pow (of_uint w) (Fin 1) = Fin (real (unat w))"
  by (simp add: of_uint_def)

lemma cooled_single:
  "cooled (Fin e) [Fin a] [Fin b] w (Suc 0) = [Fin (max (a * exp (- (b * real (unat w)))) e)]"
  by (simp add: cooled_def max_elementwise_def pow_step_count fl_max_Fin del: fl_pow.simps)

lemma offset_point_half:
  assumes "T_k s = [Fin t]" and "x s = [Fin a]"
  shows "offset_point s [1 / 2] = [Fin a]"
  using assms
  by (simp add: offset_point_def signum_def fl_sub_def fl_gt_def fl_eq_def inf_times_def)

lemma offset_point_zero:
  assumes "T_k s = [Fin t]" and "0 < t" and "x s = [Fin a]"
  shows "offset_point s [0] = [Fin (a - 1)]"
  using assms
  by (simp add: offset_point_def signum_def fl_sub_def fl_gt_def fl_eq_def add_pos_pos)

lemma generate_loop_first:
  "within_bounds s (offset_point s g) \<Longrightarrow> generate_loop s (g # gs) = Some (offset_point s g, gs)"
  by simp

lemma within_bounds_single:
  "range_min s = [Fin lo] \<Longrightarrow> range_max s = [Fin hi] \<Longrightarrow> lo \<le> a \<Longrightarrow> a \<le> hi
   \<Longrightarrow> within_bounds s [Fin a]"
  by (simp add: within_bounds_def vv_le_def vv_ge_def fl_ge_def)

subsection \<open>The run of \<open>once\<close> with the objective 0\<close>


lemma once_fields:
  "T_k once = [Fin 1]" "T_0 once = [Fin 1]" "c once = [Fin c_default]"
  "c_cost once = [Fin c_default]" "T_cost once = [Fin c_default]"
  "T_cost_0 once = [Fin c_default]" "D once = Suc 0" "fp once = Float64"
  "exit_at_T_f once = False" "f_x_best_repeat_max once = 1" "f_x_best_repeats once = 0"
  "state once = NeedToCompute" "x once = [Fin 5]" "x_cand once = [Fin 5]"
  "f_x_best once = Fin (fmax Float64)"
  "downhill once = True" "objective_repeat_precision once = Fin (epsilon Float64)"
  "range_min once = [Fin 0]" "range_max once = [Fin 10]" "k once = 1" "k_r once = 0"
  "k_cost once = 0" "num_accepted once = 0"
  by (simp_all add: once_def init_def Anneal_new_def Let_def vresize_def c_default_def
      ln_div exp_minus inverse_eq_divide del: fmax.simps epsilon.simps)

lemma eps_below_third: "epsilon t < 1 / 3" "epsilon t < 1 / 300" "0 < epsilon t"
  by (cases t; simp)+

lemma warm_temperature:
  assumes "0 \<le> b" and "b \<le> 1"
  shows "epsilon t < max (1 * exp (- b)) (epsilon t)"
  using exp_minus_ge_third [OF assms] eps_below_third(1) [of t] by (simp add: max_def)

lemma warm_cost_temperature:
  assumes "0 \<le> b" and "b \<le> 1"
  shows "epsilon t < max (c_default * exp (- b)) (epsilon t)"
proof -
  have "1 / 100 * (1 / 3) \<le> c_default * exp (- b)"
    using exp_minus_ge_third [OF assms] c_default_bounds(1) by (intro mult_mono) simp_all
  then show ?thesis
    using eps_below_third(2) [of t] by (simp add: max_def)
qed

lemma once_run:
  obtains s1 s2 where
    "step (client zero_objective once) [0, 0] [[1 / 2], [1 / 2]] = Inr (s1, [0], [[1 / 2]])"
    "num_accepted s1 = 1" "state s1 = NeedToCompute" "f_x_best s1 = Fin 0"
    "step (client zero_objective s1) [0] [[1 / 2]] = Inr (s2, [], [])"
    "num_accepted s2 = 2" "state s2 = NeedToCompute" "f_x_best_repeats s2 = 1"
    "exit_at_T_f s2 = False"
    "\<not> fl_le (hd (T_k s2)) (eps s2)" "\<not> fl_le (hd (T_cost s2)) (eps s2)"
proof -
  define c0 where "c0 = once\<lparr> f_x_cand := Fin 0 \<rparr>"
  have client0: "client zero_objective once = c0"
    by (simp add: c0_def client_NeedToCompute once_fields zero_objective_def
        constant_objective_def)
  have c0_fields: "T_k c0 = [Fin 1]" "T_0 c0 = [Fin 1]" "c c0 = [Fin c_default]"
    "c_cost c0 = [Fin c_default]" "T_cost c0 = [Fin c_default]"
    "T_cost_0 c0 = [Fin c_default]" "D c0 = Suc 0" "fp c0 = Float64"
    "exit_at_T_f c0 = False" "f_x_best_repeat_max c0 = 1" "f_x_best_repeats c0 = 0"
    "state c0 = NeedToCompute" "x c0 = [Fin 5]" "x_cand c0 = [Fin 5]"
    "f_x_best c0 = Fin (fmax Float64)" "f_x_cand c0 = Fin 0"
    "downhill c0 = True" "objective_repeat_precision c0 = Fin (epsilon Float64)"
    "range_min c0 = [Fin 0]" "range_max c0 = [Fin 10]" "k c0 = 1" "k_r c0 = 0"
    "k_cost c0 = 0" "num_accepted c0 = 0"
    by (simp_all add: c0_def once_fields)
  have cont0: "stop_check (c0\<lparr> steps := steps c0 + 1 \<rparr>) = Inr (False, c0\<lparr> steps := steps c0 + 1 \<rparr>)"
    using c_default_bounds(1)
    by (simp add: stop_check_warm [where t = 1 and tc = c_default] c0_fields)
  have gen0: "generate_loop (c0\<lparr> x := x_cand c0,
                  T_k := cooled (eps c0) (T_0 c0) (c c0) (k c0) (D c0) \<rparr>) [[1 / 2], [1 / 2]]
              = Some ([Fin 5], [[1 / 2]])"
    by (subst generate_loop_first)
       (simp_all add: c0_fields eps_def cooled_single within_bounds_single
          offset_point_half [where a = 5] del: epsilon.simps)
  have new0: "new_best c0"
    by (simp add: new_best_def c0_fields fl_sub_def)
  from accepting_step [of c0 0 "[[1 / 2], [1 / 2]]" "[Fin 5]" "[[1 / 2]]" "[0]",
      OF cont0 _ accepted_zero gen0]
  obtain s1 where s1: "step c0 [0, 0] [[1 / 2], [1 / 2]] = Inr (s1, [0], [[1 / 2]])"
    "state s1 = NeedToCompute" "num_accepted s1 = 1" "f_x s1 = Fin 0"
    "x_cand s1 = [Fin 5]" "f_x_best s1 = Fin 0" "f_x_best_repeats s1 = 0"
    "T_k s1 = cooled (eps c0) (T_0 c0) (c c0) (k c0) (D c0)"
    "T_cost s1 = cooled (eps c0) (T_cost_0 c0) (c_cost c0) (k_cost c0) (D c0)"
    "T_cost_0 s1 = T_cost_0 c0" "k s1 = 2" "k_r s1 = 1" "k_cost s1 = 1" "same_setup c0 s1"
    using new0 by (auto simp add: c0_fields min_steps_to_reanneal_def)
  define c1 where "c1 = s1\<lparr> f_x_cand := Fin 0 \<rparr>"
  have client1: "client zero_objective s1 = c1"
    by (simp add: c1_def client_NeedToCompute s1 zero_objective_def constant_objective_def)
  note setup1 = s1(14) [unfolded same_setup_def c0_fields]
  have c1_fields: "T_k c1 = [Fin (max (1 * exp (- (c_default * 1))) (epsilon Float64))]"
    "T_cost c1 = [Fin (max (c_default * exp (- (c_default * 0))) (epsilon Float64))]"
    "T_0 c1 = [Fin 1]" "c c1 = [Fin c_default]" "c_cost c1 = [Fin c_default]"
    "T_cost_0 c1 = [Fin c_default]" "D c1 = Suc 0" "fp c1 = Float64"
    "exit_at_T_f c1 = False" "f_x_best_repeat_max c1 = 1" "f_x_best_repeats c1 = 0"
    "state c1 = NeedToCompute" "x_cand c1 = [Fin 5]" "f_x_best c1 = Fin 0"
    "f_x_cand c1 = Fin 0" "downhill c1 = True"
    "objective_repeat_precision c1 = Fin (epsilon Float64)"
    "range_min c1 = [Fin 0]" "range_max c1 = [Fin 10]" "k c1 = 2" "k_r c1 = 1"
    "k_cost c1 = 1" "num_accepted c1 = 1"
    using setup1
    by (simp_all add: c1_def s1 c0_fields eps_def cooled_single del: epsilon.simps)
  have "stop_check (c1\<lparr> steps := steps c1 + 1 \<rparr>) =
          (if f_x_best_repeat_max (c1\<lparr> steps := steps c1 + 1 \<rparr>)
                \<le> f_x_best_repeats (c1\<lparr> steps := steps c1 + 1 \<rparr>)
           then Inr (True, c1\<lparr> steps := steps c1 + 1, reason_for_exit := f_x_best_repeated \<rparr>)
           else Inr (False, c1\<lparr> steps := steps c1 + 1 \<rparr>))"
    using c_default_bounds warm_temperature [of "c_default * 1" Float64]
      warm_cost_temperature [of "c_default * 0" Float64]
    by (intro stop_check_warm [where ts = "[]" and tcs = "[]"
          and t = "max (1 * exp (- (c_default * 1))) (epsilon Float64)"
          and tc = "max (c_default * exp (- (c_default * 0))) (epsilon Float64)"])
       (simp_all add: c1_fields del: epsilon.simps)
  then have cont1: "stop_check (c1\<lparr> steps := steps c1 + 1 \<rparr>)
      = Inr (False, c1\<lparr> steps := steps c1 + 1 \<rparr>)"
    by (simp add: c1_fields)
  have gen1: "generate_loop (c1\<lparr> x := x_cand c1,
                  T_k := cooled (eps c1) (T_0 c1) (c c1) (k c1) (D c1) \<rparr>) [[1 / 2]]
              = Some ([Fin 5], [])"
    by (subst generate_loop_first)
       (simp_all add: c1_fields eps_def cooled_single within_bounds_single
          offset_point_half [where a = 5] del: epsilon.simps)
  have new1: "\<not> new_best c1"
    by (simp add: new_best_def c1_fields fl_sub_def)
  from accepting_step [of c1 0 "[[1 / 2]]" "[Fin 5]" "[]" "[]", OF cont1 _ accepted_zero gen1]
  obtain s2 where s2: "step c1 [0] [[1 / 2]] = Inr (s2, [], [])"
    "state s2 = NeedToCompute" "num_accepted s2 = 2" "f_x_best_repeats s2 = 1"
    "T_k s2 = cooled (eps c1) (T_0 c1) (c c1) (k c1) (D c1)"
    "T_cost s2 = cooled (eps c1) (T_cost_0 c1) (c_cost c1) (k_cost c1) (D c1)"
    "same_setup c1 s2"
    using new1 by (auto simp add: c1_fields min_steps_to_reanneal_def fl_sub_def)
  note setup2 = s2(7) [unfolded same_setup_def c1_fields]
  have warm2: "exit_at_T_f s2 = False"
    "\<not> fl_le (hd (T_k s2)) (eps s2)" "\<not> fl_le (hd (T_cost s2)) (eps s2)"
    using setup2 c_default_bounds warm_temperature [of "c_default * 2" Float64]
      warm_cost_temperature [of "c_default * 1" Float64]
    by (simp_all add: s2 c1_fields eps_def cooled_single not_le del: epsilon.simps)
  show thesis
    using that [OF s1(1) [folded client0] s1(3,2,6) s2(1) [folded client1] s2(3,2,4) warm2]
    by simp
qed

lemma optimise_step:
  "state s \<noteq> ReadyToStop \<Longrightarrow> step (client f s) us gs = Inr (s', us', gs')
   \<Longrightarrow> optimise (Suc j) f s us gs = optimise j f s' us' gs'"
  by simp




theorem f_x_best_never_regresses_witness:
  "reaches once (after (optimise 1 zero_objective once [0, 0] [[1 / 2], [1 / 2]]))
   \<and> fl_le (Fin 0) (objective_repeat_precision once)
   \<and> downhill once
   \<and> fl_lt (f_x_best (after (optimise 1 zero_objective once [0, 0] [[1 / 2], [1 / 2]])))
        (f_x_best once)"
proof -
  obtain s1 s2 where
    1: "step (client zero_objective once) [0, 0] [[1 / 2], [1 / 2]] = Inr (s1, [0], [[1 / 2]])"
    and a1: "num_accepted s1 = 1" and st1: "state s1 = NeedToCompute"
    and b1: "f_x_best s1 = Fin 0"
    and 2: "step (client zero_objective s1) [0] [[1 / 2]] = Inr (s2, [], [])"
    and a2: "num_accepted s2 = 2" and st2: "state s2 = NeedToCompute"
    and r2: "f_x_best_repeats s2 = 1"
    and warm: "exit_at_T_f s2 = False"
      "\<not> fl_le (hd (T_k s2)) (eps s2)" "\<not> fl_le (hd (T_cost s2)) (eps s2)"
    by (rule once_run)
  have after1: "after (optimise 1 zero_objective once [0, 0] [[1 / 2], [1 / 2]]) = s1"
    using optimise_step [OF _ 1, of 0] by (simp add: once_fields after_def)
  have "reaches once (client zero_objective once)"
    using reaches.objective [OF reaches.here, of once "Fin 0"]
    by (simp add: client_NeedToCompute once_fields zero_objective_def constant_objective_def)
  then have r: "reaches once s1"
    using 1 by (rule reaches.stepped)
  have p: "fl_le (Fin 0) (objective_repeat_precision once)"
    by (simp add: once_fields)
  have "f_x_best s1 \<noteq> f_x_best once"
    by (simp add: b1 once_fields)
  then have "fl_lt (f_x_best s1) (f_x_best once)"
    using f_x_best_never_regresses [OF r p] by (simp add: once_fields)
  then show ?thesis
    unfolding after1 using r p by (simp add: once_fields)
qed

subsection \<open>Examples at the floor and after \<open>init\<close>\<close>

lemma quick_configured:
  "configured ((Anneal_new Float64 [Fin 5] [(Fin 0, Fin 10)])
                 \<lparr> temperature_ratio_scale := Fin (1 / 2 ^ 60),
                   temperature_anneal_scale := Fin 1 \<rparr>)"
  by (intro configured.intros) simp

lemma quick_fields:
  "T_k quick = [Fin 1]" "T_0 quick = [Fin 1]" "c quick = [Fin (ln (2 ^ 60))]"
  "T_cost quick = [Fin (ln (2 ^ 60))]"
  "D quick = Suc 0" "fp quick = Float64"
  "exit_at_T_f quick = False" "f_x_best_repeat_max quick = 10" "f_x_best_repeats quick = 0"
  "state quick = NeedToCompute" "x quick = [Fin 5]" "x_cand quick = [Fin 5]"
  "range_min quick = [Fin 0]" "range_max quick = [Fin 10]" "k quick = 1" "k_r quick = 0"
  by (simp_all add: quick_def init_def Anneal_new_def Let_def vresize_def
      ln_div del: fmax.simps epsilon.simps)

lemma ln_two_to_sixty: "1 \<le> ln ((2::real) ^ 60)" "exp (- ln ((2::real) ^ 60)) = 1 / 2 ^ 60"
proof -
  have "exp (1::real) \<le> 3" by (rule exp_le)
  then have "exp (1::real) \<le> 2 ^ 60" by simp
  then show "1 \<le> ln ((2::real) ^ 60)" by (simp add: ln_ge_iff)
  show "exp (- ln ((2::real) ^ 60)) = 1 / 2 ^ 60"
    by (simp add: exp_minus inverse_eq_divide)
qed

theorem floor_temperature_stops_witness:
  "T_k (after (optimise 1 zero_objective quick [0] [[1 / 2]])) = [Fin (epsilon Float64)]
   \<and> reachable (after (optimise 1 zero_objective quick [0] [[1 / 2]]))
   \<and> raised (optimise 2 zero_objective quick [0] [[1 / 2]]) = None
   \<and> state (after (optimise 2 zero_objective quick [0] [[1 / 2]])) = ReadyToStop
   \<and> reason_for_exit (after (optimise 2 zero_objective quick [0] [[1 / 2]]))
       = T_k_less_than_epsilon"
proof -
  define c0 where "c0 = quick\<lparr> f_x_cand := Fin 0 \<rparr>"
  have client0: "client zero_objective quick = c0"
    by (simp add: c0_def client_NeedToCompute quick_fields zero_objective_def
        constant_objective_def)
  have c0_fields: "T_k c0 = [Fin 1]" "T_0 c0 = [Fin 1]" "c c0 = [Fin (ln (2 ^ 60))]"
    "T_cost c0 = [Fin (ln (2 ^ 60))]" "D c0 = Suc 0" "fp c0 = Float64"
    "exit_at_T_f c0 = False" "f_x_best_repeat_max c0 = 10" "f_x_best_repeats c0 = 0"
    "state c0 = NeedToCompute" "x c0 = [Fin 5]" "x_cand c0 = [Fin 5]"
    "range_min c0 = [Fin 0]" "range_max c0 = [Fin 10]" "k c0 = 1" "k_r c0 = 0"
    by (simp_all add: c0_def quick_fields)
  have cont0: "stop_check (c0\<lparr> steps := steps c0 + 1 \<rparr>) = Inr (False, c0\<lparr> steps := steps c0 + 1 \<rparr>)"
    using ln_two_to_sixty(1)
    by (simp add: stop_check_warm [where t = 1 and tc = "ln (2 ^ 60)"] c0_fields)
  have gen0: "generate_loop (c0\<lparr> x := x_cand c0,
                  T_k := cooled (eps c0) (T_0 c0) (c c0) (k c0) (D c0) \<rparr>) [[1 / 2]]
              = Some ([Fin 5], [])"
    by (subst generate_loop_first)
       (simp_all add: c0_fields eps_def cooled_single within_bounds_single
          offset_point_half [where a = 5] del: epsilon.simps)
  from accepting_step [of c0 0 "[[1 / 2]]" "[Fin 5]" "[]" "[]", OF cont0 _ accepted_zero gen0]
  obtain s1 where s1: "step c0 [0] [[1 / 2]] = Inr (s1, [], [])"
    "state s1 = NeedToCompute"
    "T_k s1 = cooled (eps c0) (T_0 c0) (c c0) (k c0) (D c0)"
    "same_setup c0 s1"
    by (auto simp add: c0_fields min_steps_to_reanneal_def)
  have floor: "T_k s1 = [Fin (epsilon Float64)]"
    using ln_two_to_sixty(2) by (simp add: s1 c0_fields eps_def cooled_single)
  have after1: "optimise 1 zero_objective quick [0] [[1 / 2]] = Inr (s1, [], [])"
    using optimise_step [OF _ s1(1) [folded client0], of 0] by (simp add: quick_fields)
  have "reaches quick c0"
    unfolding c0_def by (rule reaches.objective [OF reaches.here])
  then have "reaches quick s1"
    using s1(1) by (rule reaches.stepped)
  then have r1: "reachable s1"
    unfolding reachable_def quick_def using quick_configured by blast
  define c1 where "c1 = s1\<lparr> f_x_cand := Fin 0 \<rparr>"
  have client1: "client zero_objective s1 = c1"
    by (simp add: c1_def client_NeedToCompute s1 zero_objective_def constant_objective_def)
  have "reaches quick c1"
    unfolding c1_def using \<open>reaches quick s1\<close> by (rule reaches.objective)
  then have r: "reachable c1"
    unfolding reachable_def quick_def using quick_configured by blast
  have c1_fields: "T_k c1 = [Fin (epsilon Float64)]" "exit_at_T_f c1 = False" "fp c1 = Float64"
    using s1(4) by (simp_all add: c1_def floor same_setup_def c0_fields)
  have "step c1 [] [] =
      Inr (c1\<lparr> steps := steps c1 + 1, reason_for_exit := T_k_less_than_epsilon,
              state := ReadyToStop \<rparr>, [], [])"
    by (rule floor_temperature_stops [OF r])
       (simp_all add: c1_fields vmin_def eps_def)
  then have "optimise 2 zero_objective quick [0] [[1 / 2]] =
      Inr (c1\<lparr> steps := steps c1 + 1, reason_for_exit := T_k_less_than_epsilon,
              state := ReadyToStop \<rparr>, [], [])"
    using optimise_step [OF _ s1(1) [folded client0], of 1] s1(2) client1
    by (simp add: numeral_2_eq_2 quick_fields)
  then have "raised (optimise 2 zero_objective quick [0] [[1 / 2]]) = None
      \<and> state (after (optimise 2 zero_objective quick [0] [[1 / 2]])) = ReadyToStop
      \<and> reason_for_exit (after (optimise 2 zero_objective quick [0] [[1 / 2]]))
          = T_k_less_than_epsilon"
    by (simp add: raised_def after_def)
  moreover have "after (optimise 1 zero_objective quick [0] [[1 / 2]]) = s1"
    by (simp only: after1 after_def sum.case prod.case)
  ultimately show ?thesis
    using floor r1 by simp
qed



subsection \<open>A negative tolerance\<close>

lemma loose_fields:
  "T_k loose = [Fin 1]" "T_0 loose = [Fin 1]" "c loose = [Fin c_default]"
  "c_cost loose = [Fin c_default]" "T_cost loose = [Fin c_default]"
  "T_cost_0 loose = [Fin c_default]" "D loose = Suc 0" "fp loose = Float64"
  "exit_at_T_f loose = False" "f_x_best_repeat_max loose = 10" "f_x_best_repeats loose = 0"
  "state loose = NeedToCompute" "x loose = [Fin 5]" "x_cand loose = [Fin 5]"
  "f_x_best loose = Fin (fmax Float64)"
  "downhill loose = True" "objective_repeat_precision loose = Fin (- 1)"
  "range_min loose = [Fin 0]" "range_max loose = [Fin 10]" "k loose = 1" "k_r loose = 0"
  "k_cost loose = 0" "num_accepted loose = 0"
  by (simp_all add: loose_def init_def Anneal_new_def Let_def vresize_def c_default_def
      ln_div exp_minus inverse_eq_divide del: fmax.simps epsilon.simps)

text \<open>
  Two calls of \<open>step\<close> from \<open>loose\<close> with the objective \<open>dip\<close>. Both acceptance
  draws are 0; the first generation draw is 0, which puts the candidate at \<open>x - 1\<close>, the
  second is one half, which leaves it at \<open>x\<close>.
\<close>

lemma loose_run:
  obtains s1 s2 where
    "step (client dip loose) [0, 0] [[0], [1 / 2]] = Inr (s1, [0], [[1 / 2]])"
    "state s1 = NeedToCompute" "f_x_best s1 = Fin 0"
    "step (client dip s1) [0] [[1 / 2]] = Inr (s2, [], [])"
    "state s2 = NeedToCompute" "f_x_best s2 = Fin (1 / 2)"
proof -
  define c0 where "c0 = loose\<lparr> f_x_cand := Fin 0 \<rparr>"
  have client0: "client dip loose = c0"
    by (simp add: c0_def client_NeedToCompute loose_fields dip_def)
  have c0_fields: "T_k c0 = [Fin 1]" "T_0 c0 = [Fin 1]" "c c0 = [Fin c_default]"
    "c_cost c0 = [Fin c_default]" "T_cost c0 = [Fin c_default]"
    "T_cost_0 c0 = [Fin c_default]" "D c0 = Suc 0" "fp c0 = Float64"
    "exit_at_T_f c0 = False" "f_x_best_repeat_max c0 = 10" "f_x_best_repeats c0 = 0"
    "state c0 = NeedToCompute" "x c0 = [Fin 5]" "x_cand c0 = [Fin 5]"
    "f_x_best c0 = Fin (fmax Float64)" "f_x_cand c0 = Fin 0"
    "downhill c0 = True" "objective_repeat_precision c0 = Fin (- 1)"
    "range_min c0 = [Fin 0]" "range_max c0 = [Fin 10]" "k c0 = 1" "k_r c0 = 0"
    "k_cost c0 = 0" "num_accepted c0 = 0"
    by (simp_all add: c0_def loose_fields)
  have cont0: "stop_check (c0\<lparr> steps := steps c0 + 1 \<rparr>) = Inr (False, c0\<lparr> steps := steps c0 + 1 \<rparr>)"
    using c_default_bounds(1)
    by (simp add: stop_check_warm [where t = 1 and tc = c_default] c0_fields)
  have t1: "0 < max (1 * exp (- (c_default * 1))) (epsilon Float64)"
    using eps_below_third(3) [of Float64] by (simp add: max_def del: epsilon.simps)
  have "offset_point (c0\<lparr> x := x_cand c0,
            T_k := cooled (eps c0) (T_0 c0) (c c0) (k c0) (D c0) \<rparr>) [0] = [Fin (5 - 1)]"
    using t1
    by (intro offset_point_zero
          [where t = "max (1 * exp (- (c_default * 1))) (epsilon Float64)"])
       (simp_all add: c0_fields eps_def cooled_single del: epsilon.simps)
  then have gen0: "generate_loop (c0\<lparr> x := x_cand c0,
                  T_k := cooled (eps c0) (T_0 c0) (c c0) (k c0) (D c0) \<rparr>) [[0], [1 / 2]]
              = Some ([Fin 4], [[1 / 2]])"
    by (subst generate_loop_first) (simp_all add: c0_fields within_bounds_single)
  have new0: "new_best c0"
    by (simp add: new_best_def c0_fields fl_sub_def)
  from accepting_step [of c0 0 "[[0], [1 / 2]]" "[Fin 4]" "[[1 / 2]]" "[0]",
      OF cont0 _ accepted_zero gen0]
  obtain s1 where s1: "step c0 [0, 0] [[0], [1 / 2]] = Inr (s1, [0], [[1 / 2]])"
    "state s1 = NeedToCompute" "num_accepted s1 = 1" "f_x s1 = Fin 0"
    "x_cand s1 = [Fin 4]" "f_x_best s1 = Fin 0" "f_x_best_repeats s1 = 0"
    "T_k s1 = cooled (eps c0) (T_0 c0) (c c0) (k c0) (D c0)"
    "T_cost s1 = cooled (eps c0) (T_cost_0 c0) (c_cost c0) (k_cost c0) (D c0)"
    "T_cost_0 s1 = T_cost_0 c0" "k s1 = 2" "k_r s1 = 1" "k_cost s1 = 1" "same_setup c0 s1"
    using new0 by (auto simp add: c0_fields min_steps_to_reanneal_def)
  define c1 where "c1 = s1\<lparr> f_x_cand := Fin (1 / 2) \<rparr>"
  have client1: "client dip s1 = c1"
    by (simp add: c1_def client_NeedToCompute s1 dip_def)
  note same1 = s1(14) [unfolded same_setup_def c0_fields]
  have c1_fields: "T_k c1 = [Fin (max (1 * exp (- (c_default * 1))) (epsilon Float64))]"
    "T_cost c1 = [Fin (max (c_default * exp (- (c_default * 0))) (epsilon Float64))]"
    "T_0 c1 = [Fin 1]" "c c1 = [Fin c_default]" "c_cost c1 = [Fin c_default]"
    "T_cost_0 c1 = [Fin c_default]" "D c1 = Suc 0" "fp c1 = Float64"
    "exit_at_T_f c1 = False" "f_x_best_repeat_max c1 = 10" "f_x_best_repeats c1 = 0"
    "state c1 = NeedToCompute" "x_cand c1 = [Fin 4]" "f_x_best c1 = Fin 0"
    "f_x_cand c1 = Fin (1 / 2)" "downhill c1 = True"
    "objective_repeat_precision c1 = Fin (- 1)"
    "range_min c1 = [Fin 0]" "range_max c1 = [Fin 10]" "k c1 = 2" "k_r c1 = 1"
    "k_cost c1 = 1" "num_accepted c1 = 1"
    using same1
    by (simp_all add: c1_def s1 c0_fields eps_def cooled_single del: epsilon.simps)
  have "stop_check (c1\<lparr> steps := steps c1 + 1 \<rparr>) =
          (if f_x_best_repeat_max (c1\<lparr> steps := steps c1 + 1 \<rparr>)
                \<le> f_x_best_repeats (c1\<lparr> steps := steps c1 + 1 \<rparr>)
           then Inr (True, c1\<lparr> steps := steps c1 + 1, reason_for_exit := f_x_best_repeated \<rparr>)
           else Inr (False, c1\<lparr> steps := steps c1 + 1 \<rparr>))"
    using c_default_bounds warm_temperature [of "c_default * 1" Float64]
      warm_cost_temperature [of "c_default * 0" Float64]
    by (intro stop_check_warm [where ts = "[]" and tcs = "[]"
          and t = "max (1 * exp (- (c_default * 1))) (epsilon Float64)"
          and tc = "max (c_default * exp (- (c_default * 0))) (epsilon Float64)"])
       (simp_all add: c1_fields del: epsilon.simps)
  then have cont1: "stop_check (c1\<lparr> steps := steps c1 + 1 \<rparr>)
      = Inr (False, c1\<lparr> steps := steps c1 + 1 \<rparr>)"
    by (simp add: c1_fields)
  have gen1: "generate_loop (c1\<lparr> x := x_cand c1,
                  T_k := cooled (eps c1) (T_0 c1) (c c1) (k c1) (D c1) \<rparr>) [[1 / 2]]
              = Some ([Fin 4], [])"
    by (subst generate_loop_first)
       (simp_all add: c1_fields eps_def cooled_single within_bounds_single
          offset_point_half [where a = 4] del: epsilon.simps)
  have new1: "new_best c1"
    by (simp add: new_best_def c1_fields fl_sub_def)
  from accepting_step [of c1 0 "[[1 / 2]]" "[Fin 4]" "[]" "[]", OF cont1 _ accepted_zero gen1]
  obtain s2 where s2: "step c1 [0] [[1 / 2]] = Inr (s2, [], [])"
    "state s2 = NeedToCompute" "f_x_best s2 = Fin (1 / 2)"
    using new1 by (auto simp add: c1_fields min_steps_to_reanneal_def)
  show thesis
    using that [OF s1(1) [folded client0] s1(2,6) s2(1) [folded client1] s2(2,3)] .
qed

text \<open>
  The specification has \<open>f_x_best\<close> never increase when the search descends. With the
  tolerance \<open>objective_repeat_precision\<close> set to -1 the first call of \<open>step\<close> makes
  the candidate with the objective 0 the best point, and the second call replaces it by
  the candidate with the objective one half, which is accepted and lies within the
  tolerance of the best.
\<close>

theorem negative_tolerance_regresses:
  "downhill loose
   \<and> objective_repeat_precision loose = Fin (- 1)
   \<and> raised (optimise 2 dip loose [0, 0] [[0], [1 / 2]]) = None
   \<and> reaches loose (after (optimise 1 dip loose [0, 0] [[0], [1 / 2]]))
   \<and> reaches (after (optimise 1 dip loose [0, 0] [[0], [1 / 2]]))
        (after (optimise 2 dip loose [0, 0] [[0], [1 / 2]]))
   \<and> f_x_best (after (optimise 1 dip loose [0, 0] [[0], [1 / 2]])) = Fin 0
   \<and> f_x_best (after (optimise 2 dip loose [0, 0] [[0], [1 / 2]])) = Fin (1 / 2)
   \<and> fl_lt (f_x_best (after (optimise 1 dip loose [0, 0] [[0], [1 / 2]])))
        (f_x_best (after (optimise 2 dip loose [0, 0] [[0], [1 / 2]])))"
proof -
  obtain s1 s2 where
    1: "step (client dip loose) [0, 0] [[0], [1 / 2]] = Inr (s1, [0], [[1 / 2]])"
    and st1: "state s1 = NeedToCompute" and b1: "f_x_best s1 = Fin 0"
    and 2: "step (client dip s1) [0] [[1 / 2]] = Inr (s2, [], [])"
    and st2: "state s2 = NeedToCompute" and b2: "f_x_best s2 = Fin (1 / 2)"
    by (rule loose_run)
  have o1: "optimise 1 dip loose [0, 0] [[0], [1 / 2]] = Inr (s1, [0], [[1 / 2]])"
    using optimise_step [OF _ 1, of 0] by (simp add: loose_fields)
  have o2: "optimise 2 dip loose [0, 0] [[0], [1 / 2]] = Inr (s2, [], [])"
    using optimise_step [OF _ 1] optimise_step [OF _ 2] st1
    by (simp add: numeral_2_eq_2 loose_fields)
  have after1: "after (optimise 1 dip loose [0, 0] [[0], [1 / 2]]) = s1"
    and after2: "after (optimise 2 dip loose [0, 0] [[0], [1 / 2]]) = s2"
    and raised2: "raised (optimise 2 dip loose [0, 0] [[0], [1 / 2]]) = None"
    by (simp_all only: o1 o2 after_def raised_def sum.case prod.case)
  have "reaches loose (client dip loose)"
    using reaches.objective [OF reaches.here, of loose "Fin 0"]
    by (simp add: client_NeedToCompute loose_fields dip_def)
  then have r1: "reaches loose s1"
    using 1 by (rule reaches.stepped)
  have "reaches s1 (client dip s1)"
    using reaches.objective [OF reaches.here, of s1 "dip (x_cand s1)"]
    by (simp add: client_NeedToCompute st1)
  then have r2: "reaches s1 s2"
    using 2 by (rule reaches.stepped)
  show ?thesis
    unfolding after1 after2 raised2
    using r1 r2 by (simp add: b1 b2 loose_fields)
qed

end
